theory Spec2Isabelle
  imports Complex_Main "HOL-Library.List_Lexorder"
begin

section \<open>JavaScript values and builtins used by the issue controller\<close>

text \<open>
  The development follows the issue controller (\<^verbatim>\<open>src/unnamed/part_000\<close>, its first and
  current revision, the one with \<^verbatim>\<open>getAllIssuesFull\<close>), the issue schema with the
  clustering fields (\<^verbatim>\<open>src/unnamed/part_001\<close>) and the validators of the issue routes
  (the routes file that follows the server in \<^verbatim>\<open>src/backend/index.js\<close>).

  JavaScript numbers are modelled by \<^typ>\<open>real\<close> or \<^typ>\<open>int\<close>; a value that may be
  \<^verbatim>\<open>NaN\<close> is an \<open>option\<close> with \<open>None\<close> for \<^verbatim>\<open>NaN\<close>. All quantities that occur
  (hours, milliseconds, vote counts) are far below \<open>2^53\<close>, where the arithmetic of
  doubles on integers and on the multipliers \<open>1/4\<close>, \<open>1/2\<close>, \<open>3/2\<close> is exact.
\<close>

text \<open>\<^verbatim>\<open>Math.round\<close>: the nearest integer, a half rounded towards \<open>+\<infinity>\<close>.\<close>

definition Math_round :: "real \<Rightarrow> int" where
  "Math_round x = \<lfloor>x + 1 / 2\<rfloor>"

text \<open>
  Reading \<^verbatim>\<open>obj[key]\<close> on an object literal: an own property gives its value, a name that
  \<^verbatim>\<open>Object.prototype\<close> defines gives the inherited member (a function, or the prototype object
  itself for \<^verbatim>\<open>__proto__\<close>), any other name gives \<^verbatim>\<open>undefined\<close>.
\<close>

definition objectPrototypeKeys :: "string list" where
  "objectPrototypeKeys =
     [''constructor'', ''__proto__'', ''hasOwnProperty'', ''isPrototypeOf'',
      ''propertyIsEnumerable'', ''toLocaleString'', ''toString'', ''valueOf'',
      ''__defineGetter__'', ''__defineSetter__'', ''__lookupGetter__'', ''__lookupSetter__'']"

datatype 'a property = Own 'a | Inherited | Undefined

definition getProperty :: "(string \<times> 'a) list \<Rightarrow> string \<Rightarrow> 'a property" where
  "getProperty obj key =
     (case map_of obj key of
        Some v \<Rightarrow> Own v
      | None \<Rightarrow> if key \<in> set objectPrototypeKeys then Inherited else Undefined)"

text \<open>
  \<^verbatim>\<open>obj[key] || d\<close> for a table of numbers, as a number: \<open>0\<close> and \<^verbatim>\<open>undefined\<close> are falsy
  and give \<open>d\<close>; an inherited member is truthy and is not a number (\<open>None\<close>: it makes
  every product \<^verbatim>\<open>NaN\<close>).
\<close>

definition orDefault :: "real property \<Rightarrow> real \<Rightarrow> real option" where
  "orDefault v d =
     (case v of
        Own x \<Rightarrow> Some (if x = 0 then d else x)
      | Inherited \<Rightarrow> None
      | Undefined \<Rightarrow> Some d)"

section \<open>Estimated resolution time\<close>

definition baseHours :: "(string \<times> real) list" where
  "baseHours =
     [(''Roads & Infrastructure'', 72),
      (''Waste Management'', 24),
      (''Electricity'', 48),
      (''Water Supply'', 48),
      (''Sewage & Drainage'', 48),
      (''Traffic & Transportation'', 24),
      (''Public Safety'', 12),
      (''Parks & Recreation'', 72),
      (''Street Lighting'', 24),
      (''Noise Pollution'', 48),
      (''Other'', 48)]"

definition priorityMultiplier :: "(string \<times> real) list" where
  "priorityMultiplier =
     [(''urgent'', 1 / 4),
      (''high'', 1 / 2),
      (''medium'', 1),
      (''low'', 3 / 2)]"

text \<open>The standalone helper at the end of the controller; \<open>None\<close> is \<^verbatim>\<open>NaN\<close>.\<close>

definition calculateEstimatedResolutionTime :: "string \<Rightarrow> string \<Rightarrow> int option" where
  "calculateEstimatedResolutionTime category priority =
     (case orDefault (getProperty baseHours category) 48 of
        None \<Rightarrow> None
      | Some base \<Rightarrow>
          (case orDefault (getProperty priorityMultiplier priority) 1 of
             None \<Rightarrow> None
           | Some multiplier \<Rightarrow> Some (Math_round (base * multiplier))))"

text \<open>
  The helper as the specification words it: a base-hours table with default \<open>48\<close>, the four
  multipliers (any other priority counts \<open>1\<close>, as in the code), and the rounded product.
\<close>

definition baseHoursForCategory :: "string \<Rightarrow> real" where
  "baseHoursForCategory category =
     (case map_of baseHours category of Some h \<Rightarrow> h | None \<Rightarrow> 48)"

definition priorityMultiplierFor :: "string \<Rightarrow> real" where
  "priorityMultiplierFor priority =
     (if priority = ''urgent'' then 1 / 4
      else if priority = ''high'' then 1 / 2
      else if priority = ''medium'' then 1
      else if priority = ''low'' then 3 / 2
      else 1)"

definition estimateResolutionHours :: "string \<Rightarrow> string \<Rightarrow> int" where
  "estimateResolutionHours category priority =
     Math_round (baseHoursForCategory category * priorityMultiplierFor priority)"

section \<open>The issue document and the store\<close>

text \<open>
  Documents follow the schema of \<^verbatim>\<open>models/Issue.js\<close>. A path that a handler can leave
  or make \<^verbatim>\<open>undefined\<close> is an \<open>option\<close>: the status of an issue and of a history entry
  (the schema's \<^verbatim>\<open>enum\<close> validator accepts \<^verbatim>\<open>undefined\<close>, and a path set to
  \<^verbatim>\<open>undefined\<close> is unset in the stored document) and the department of an assignment. An \<^verbatim>\<open>ObjectId\<close> is a number; two
  ids are compared by value, which is what the controller's \<^verbatim>\<open>toString()\<close> comparisons and
  the array's \<^verbatim>\<open>includes\<close> of the document library do. A \<^verbatim>\<open>Date\<close> is its number of
  milliseconds since the epoch, and each request reads the clock once: the handlers take
  the time \<open>now\<close> of the request as a parameter. Every reference to a user is taken to
  resolve (the sources never delete a user), so \<^verbatim>\<open>populate\<close> only shapes responses.
\<close>

type_synonym oid = nat
type_synonym time = int

record user =
  user_id :: oid
  role :: string

record status_entry =
  entry_status :: "string option"
  entry_updatedBy :: "oid option"
  entry_comment :: string
  entry_timestamp :: time

record notification =
  note_message :: string
  note_type :: string
  note_timestamp :: time
  note_read :: bool

record geo_location =
  coordinates :: "real list"
  address :: string
  city :: "string option"
  state :: "string option"
  pincode :: "string option"

record assignment =
  department :: "string option"
  official :: "oid option"

record resolution =
  resolvedBy :: oid
  resolutionDate :: time
  resolutionDescription :: string
  resolutionImages :: "string list"

record issue =
  issue_id :: oid
  title :: string
  description :: string
  category :: string
  location :: geo_location
  images :: "string list"
  voiceNote :: "string option"
  reportedBy :: oid
  assignedTo :: "assignment option"
  status :: "string option"
  votes :: int
  voters :: "oid list"
  priority :: string
  priorityReasons :: "string list"
  priorityAuto :: bool
  statusHistory :: "status_entry list"
  notifications :: "notification list"
  estimatedResolutionTime :: "int option"
  actualResolutionTime :: "int option"
  resolutionDetails :: "resolution option"
  createdAt :: time
  updatedAt :: time
  mergedInto :: "oid option"
  duplicates :: "oid list"
  reporters :: "oid list"

text \<open>
  The collection, in insertion order. A new document gets a fresh \<^verbatim>\<open>ObjectId\<close>, an id
  no stored document has: \<open>freshId\<close> is one above the ids in the store.
\<close>

record store =
  issues :: "issue list"

definition freshId :: "store \<Rightarrow> oid" where
  "freshId st = foldr (\<lambda>d n. max (Suc (issue_id d)) n) (issues st) 0"

datatype error = Forbidden | NotFound | BadRequest string | ServerError string

text \<open>The store after a request: the new store of a success, the old one after a failure.\<close>

definition storeOf :: "store \<Rightarrow> error + store \<times> 'a \<Rightarrow> store" where
  "storeOf st r = (case r of Inl e \<Rightarrow> st | Inr res \<Rightarrow> fst res)"

text \<open>
  Loading a stored document applies the schema's defaults to the paths the document lacks.
  Of the paths with a default only \<open>status\<close> can be missing from a stored document
  (default \<^verbatim>\<open>'pending'\<close>); the entries of \<open>statusHistory\<close> have no default for their
  status.
\<close>

definition hydrate :: "issue \<Rightarrow> issue" where
  "hydrate d = (case status d of None \<Rightarrow> d\<lparr>status := Some ''pending''\<rparr> | Some s \<Rightarrow> d)"

definition findById :: "store \<Rightarrow> oid \<Rightarrow> issue option" where
  "findById st i = map_option hydrate (find (\<lambda>d. issue_id d = i) (issues st))"

text \<open>
  \<^verbatim>\<open>issue.save()\<close> on a loaded document: \<open>old\<close> is the document as loaded, \<open>new\<close> the
  document after the handler's assignments. The document the handler holds replaces the
  stored one, and \<^verbatim>\<open>timestamps: true\<close> refreshes \<open>updatedAt\<close> when the handler changed a
  path.
\<close>

definition stamp :: "time \<Rightarrow> issue \<Rightarrow> issue \<Rightarrow> issue" where
  "stamp now old new = (if new = old then old else new\<lparr>updatedAt := now\<rparr>)"

definition save :: "time \<Rightarrow> store \<Rightarrow> issue \<Rightarrow> issue \<Rightarrow> store" where
  "save now st old new =
     st\<lparr>issues := map (\<lambda>d. if issue_id d = issue_id old then stamp now old new else d) (issues st)\<rparr>"

section \<open>Voting\<close>

text \<open>The two branches of \<^verbatim>\<open>voteOnIssue\<close> on the loaded document.\<close>

definition toggleVote :: "oid \<Rightarrow> issue \<Rightarrow> issue" where
  "toggleVote userId d =
     (if userId \<in> set (voters d)
      then d\<lparr>voters := filter (\<lambda>v. v \<noteq> userId) (voters d), votes := max 0 (votes d - 1)\<rparr>
      else d\<lparr>voters := voters d @ [userId], votes := votes d + 1\<rparr>)"

text \<open>
  \<^verbatim>\<open>voteOnIssue\<close>: the response carries the new count and \<^verbatim>\<open>hasVoted: !hasVoted\<close>. A request
  without \<^verbatim>\<open>req.user\<close> fails on \<^verbatim>\<open>req.user.id\<close> and is answered 500 by the handler's
  \<^verbatim>\<open>catch\<close>.
\<close>

definition voteOnIssue :: "time \<Rightarrow> store \<Rightarrow> user option \<Rightarrow> oid \<Rightarrow> error + store \<times> int \<times> bool" where
  "voteOnIssue now st requester i =
     (case findById st i of
        None \<Rightarrow> Inl NotFound
      | Some d \<Rightarrow>
          (case requester of
             None \<Rightarrow> Inl (ServerError ''Failed to vote on issue'')
           | Some u \<Rightarrow>
               let userId = user_id u;
                   hasVoted = userId \<in> set (voters d);
                   d' = toggleVote userId d
               in Inr (save now st d d', votes d', \<not> hasVoted)))"

text \<open>The store after one vote request, and after a sequence of them; a failed request changes nothing.\<close>

definition afterVote :: "store \<Rightarrow> time \<times> user option \<times> oid \<Rightarrow> store" where
  "afterVote st r =
     (case r of (now, requester, i) \<Rightarrow> storeOf st (voteOnIssue now st requester i))"

definition afterVotes :: "store \<Rightarrow> (time \<times> user option \<times> oid) list \<Rightarrow> store" where
  "afterVotes st rs = foldl afterVote st rs"

definition votesConsistent :: "issue \<Rightarrow> bool" where
  "votesConsistent d \<longleftrightarrow> votes d = int (card (set (voters d)))"


section \<open>A sample document\<close>

definition exampleIssue :: issue where
  "exampleIssue =
     \<lparr>issue_id = 1,
      title = ''Pothole on Main Street'',
      description = ''A deep pothole near the bus stop'',
      category = ''Roads & Infrastructure'',
      location = \<lparr>coordinates = [77, 13], address = ''Main Street'', city = None,
                  state = None, pincode = None\<rparr>,
      images = [],
      voiceNote = None,
      reportedBy = 7,
      assignedTo = None,
      status = Some ''pending'',
      votes = 0,
      voters = [],
      priority = ''low'',
      priorityReasons = [],
      priorityAuto = True,
      statusHistory = [\<lparr>entry_status = Some ''pending'', entry_updatedBy = None,
                        entry_comment = ''Issue reported by citizen'', entry_timestamp = 1000\<rparr>],
      notifications = [\<lparr>note_message = ''Your issue has been successfully reported and is under review'',
                        note_type = ''status_change'', note_timestamp = 1000, note_read = False\<rparr>],
      estimatedResolutionTime = Some 108,
      actualResolutionTime = None,
      resolutionDetails = None,
      createdAt = 1000,
      updatedAt = 1000,
      mergedInto = None,
      duplicates = [],
      reporters = [7]\<rparr>"

definition exampleStore :: store where
  "exampleStore = \<lparr>issues = [exampleIssue]\<rparr>"

definition citizen9 :: user where
  "citizen9 = \<lparr>user_id = 9, role = ''citizen''\<rparr>"

section \<open>Parsing numbers\<close>

text \<open>
  \<^verbatim>\<open>parseInt(s)\<close> and \<^verbatim>\<open>parseFloat(s)\<close> on strings, after ECMAScript: leading white space
  is skipped, a sign is read, then the longest prefix of digits; with no digit the result
  is \<^verbatim>\<open>NaN\<close> (\<open>None\<close>). Characters are bytes, so only the ASCII white space is
  recognised, and \<^verbatim>\<open>parseFloat\<close> does not read the literal \<^verbatim>\<open>Infinity\<close>.
\<close>

definition isWhiteSpace :: "char \<Rightarrow> bool" where
  "isWhiteSpace c \<longleftrightarrow> c \<in> set [CHR 0x09, CHR 0x0A, CHR 0x0B, CHR 0x0C, CHR 0x0D, CHR '' '']"

definition digitValue :: "char \<Rightarrow> nat option" where
  "digitValue c =
     (let n = (of_char c :: nat)
      in if 48 \<le> n \<and> n \<le> 57 then Some (n - 48)
         else if 97 \<le> n \<and> n \<le> 122 then Some (n - 87)
         else if 65 \<le> n \<and> n \<le> 90 then Some (n - 55)
         else None)"

definition isRadixDigit :: "nat \<Rightarrow> char \<Rightarrow> bool" where
  "isRadixDigit R c = (case digitValue c of Some v \<Rightarrow> v < R | None \<Rightarrow> False)"

definition radixValue :: "nat \<Rightarrow> string \<Rightarrow> nat" where
  "radixValue R ds = foldl (\<lambda>a c. a * R + (case digitValue c of Some v \<Rightarrow> v | None \<Rightarrow> 0)) 0 ds"

definition readSign :: "string \<Rightarrow> int \<times> string" where
  "readSign s =
     (case s of
        [] \<Rightarrow> (1, s)
      | c # r \<Rightarrow> if c = CHR ''-'' then (- 1, r) else if c = CHR ''+'' then (1, r) else (1, s))"

definition readRadix :: "string \<Rightarrow> nat \<times> string" where
  "readRadix s =
     (case s of
        c # x # r \<Rightarrow> if c = CHR ''0'' \<and> (x = CHR ''x'' \<or> x = CHR ''X'') then (16, r) else (10, s)
      | _ \<Rightarrow> (10, s))"

definition parseInt :: "string \<Rightarrow> int option" where
  "parseInt s =
     (case readSign (dropWhile isWhiteSpace s) of (sign, s1) \<Rightarrow>
        (case readRadix s1 of (R, s2) \<Rightarrow>
           let Z = takeWhile (isRadixDigit R) s2
           in if Z = [] then None else Some (sign * int (radixValue R Z))))"

definition readExponent :: "string \<Rightarrow> int" where
  "readExponent s =
     (case s of
        [] \<Rightarrow> 0
      | c # r \<Rightarrow>
          if c = CHR ''e'' \<or> c = CHR ''E''
          then (case readSign r of (sign, r1) \<Rightarrow>
                  sign * int (radixValue 10 (takeWhile (isRadixDigit 10) r1)))
          else 0)"

definition parseFloat :: "string \<Rightarrow> real option" where
  "parseFloat s =
     (case readSign (dropWhile isWhiteSpace s) of (sign, s1) \<Rightarrow>
        let ip = takeWhile (isRadixDigit 10) s1;
            r1 = dropWhile (isRadixDigit 10) s1;
            fp = (case r1 of [] \<Rightarrow> [] | c # t \<Rightarrow>
                    if c = CHR ''.'' then takeWhile (isRadixDigit 10) t else []);
            r2 = (case r1 of [] \<Rightarrow> [] | c # t \<Rightarrow>
                    if c = CHR ''.'' then dropWhile (isRadixDigit 10) t else r1);
            e = readExponent r2;
            mantissa = real (radixValue 10 ip) + real (radixValue 10 fp) / 10 ^ length fp
        in if ip = [] \<and> fp = [] then None
           else Some (of_int sign * mantissa *
                      (if 0 \<le> e then 10 ^ nat e else 1 / 10 ^ nat (- e))))"

text \<open>\<^verbatim>\<open>s.split(',')\<close>.\<close>

fun split :: "char \<Rightarrow> string \<Rightarrow> string list" where
  "split c [] = [[]]"
| "split c (x # xs) =
     (if x = c then [] # split c xs
      else (case split c xs of [] \<Rightarrow> [[x]] | w # ws \<Rightarrow> (x # w) # ws))"

section \<open>Listing\<close>

text \<open>
  The query string of a listing request. A parameter is \<open>None\<close> when absent. The
  parameters that end up cast by the document library (the two user references, to an
  \<^verbatim>\<open>ObjectId\<close>; the two dates, which the handler first turns into a \<^verbatim>\<open>Date\<close>) are
  \<open>Absent\<close> (missing or empty), \<open>Malformed\<close> (no \<^verbatim>\<open>ObjectId\<close>, an invalid \<^verbatim>\<open>Date\<close>) or
  \<open>Given\<close> the value they are cast to.
\<close>

datatype 'a cast = Absent | Malformed | Given 'a

record list_query =
  q_status :: "string option"
  q_category :: "string option"
  q_priority :: "string option"
  q_assignedTo :: "oid cast"
  q_reportedBy :: "oid cast"
  q_location :: "string option"
  q_page :: "string option"
  q_limit :: "string option"
  q_sortBy :: "string option"
  q_sortOrder :: "string option"
  q_search :: "string option"
  q_dateFrom :: "time cast"
  q_dateTo :: "time cast"

text \<open>
  The filter object handed to the store; a field is \<open>None\<close> (or \<open>Absent\<close>) when the filter
  has no such key.
\<close>

record near_filter =
  near_lng :: "real option"
  near_lat :: "real option"
  maxDistance :: int

record issue_filter =
  f_status :: "string option"
  f_category :: "string option"
  f_priority :: "string option"
  f_official :: "oid cast"
  f_reportedBy :: "oid cast"
  f_createdGte :: "time cast"
  f_createdLte :: "time cast"
  f_search :: "string option"
  f_near :: "near_filter option"

record paginate_options =
  opt_page :: "int option"
  opt_limit :: "int option"
  opt_sortBy :: string
  opt_sortDir :: int

text \<open>\<^verbatim>\<open>if (x) ...\<close> on a string parameter: absent and empty are both falsy.\<close>

definition truthy :: "string option \<Rightarrow> string option" where
  "truthy x = (case x of None \<Rightarrow> None | Some s \<Rightarrow> if s = [] then None else Some s)"

definition nth_opt :: "'a list \<Rightarrow> nat \<Rightarrow> 'a option" where
  "nth_opt xs n = (if n < length xs then Some (xs ! n) else None)"

text \<open>
  The \<^verbatim>\<open>$near\<close> clause of \<^verbatim>\<open>getAllIssues\<close>: \<^verbatim>\<open>parseInt(radius) || 5000\<close> is 5000 when the
  radius is missing, not a number, or zero. A coordinate without a leading number is
  \<^verbatim>\<open>NaN\<close>.
\<close>

definition nearClause :: "string option \<Rightarrow> near_filter option" where
  "nearClause loc =
     (case truthy loc of
        None \<Rightarrow> None
      | Some l \<Rightarrow>
          let parts = split CHR '','' l;
              lng = truthy (nth_opt parts 0);
              lat = truthy (nth_opt parts 1);
              radius = nth_opt parts 2
          in (case (lng, lat) of
                (Some x, Some y) \<Rightarrow>
                  Some \<lparr>near_lng = parseFloat x, near_lat = parseFloat y,
                        maxDistance =
                          (case Option.bind radius parseInt of
                             None \<Rightarrow> 5000
                           | Some r \<Rightarrow> if r = 0 then 5000 else r)\<rparr>
              | _ \<Rightarrow> None))"

definition listFilter :: "list_query \<Rightarrow> issue_filter" where
  "listFilter q =
     \<lparr>f_status = truthy (q_status q),
      f_category = truthy (q_category q),
      f_priority = truthy (q_priority q),
      f_official = q_assignedTo q,
      f_reportedBy = q_reportedBy q,
      f_createdGte = q_dateFrom q,
      f_createdLte = q_dateTo q,
      f_search = truthy (q_search q),
      f_near = nearClause (q_location q)\<rparr>"

text \<open>
  The options of \<^verbatim>\<open>getAllIssues\<close>: the destructuring defaults \<^verbatim>\<open>page = 1\<close>, \<^verbatim>\<open>limit = 10\<close>,
  \<^verbatim>\<open>sortBy = 'createdAt'\<close>, \<^verbatim>\<open>sortOrder = 'desc'\<close> apply to an absent parameter only; a
  present one goes through \<^verbatim>\<open>parseInt\<close>, and the handler passes the result on as it is.
\<close>

definition listOptions :: "list_query \<Rightarrow> paginate_options" where
  "listOptions q =
     \<lparr>opt_page = (case q_page q of None \<Rightarrow> Some 1 | Some s \<Rightarrow> parseInt s),
      opt_limit = (case q_limit q of None \<Rightarrow> Some 10 | Some s \<Rightarrow> parseInt s),
      opt_sortBy = (case q_sortBy q of None \<Rightarrow> ''createdAt'' | Some s \<Rightarrow> s),
      opt_sortDir = (case q_sortOrder q of None \<Rightarrow> - 1 | Some s \<Rightarrow> if s = ''desc'' then - 1 else 1)\<rparr>"

subsection \<open>The store's side of a listing\<close>

definition toLower :: "char \<Rightarrow> char" where
  "toLower c = (let n = (of_char c :: nat) in if 65 \<le> n \<and> n \<le> 90 then char_of (n + 32) else c)"

fun isPrefixOf :: "string \<Rightarrow> string \<Rightarrow> bool" where
  "isPrefixOf [] s = True"
| "isPrefixOf (p # ps) [] = False"
| "isPrefixOf (p # ps) (c # cs) = (p = c \<and> isPrefixOf ps cs)"

fun contains :: "string \<Rightarrow> string \<Rightarrow> bool" where
  "contains p [] = (p = [])"
| "contains p (c # cs) = (isPrefixOf p (c # cs) \<or> contains p cs)"

definition containsIgnoreCase :: "string \<Rightarrow> string \<Rightarrow> bool" where
  "containsIgnoreCase p s = contains (map toLower p) (map toLower s)"

definition holds :: "'a option \<Rightarrow> ('a \<Rightarrow> bool) \<Rightarrow> bool" where
  "holds c P = (case c of None \<Rightarrow> True | Some x \<Rightarrow> P x)"

definition holdsGiven :: "'a cast \<Rightarrow> ('a \<Rightarrow> bool) \<Rightarrow> bool" where
  "holdsGiven c P = (case c of Given x \<Rightarrow> P x | _ \<Rightarrow> True)"

text \<open>
  The query engine of the document store is not part of the sources. Its two operators
  that can refuse their argument are parameters of the model: \<open>eng_regex e p\<close> is the
  case-insensitive matcher of the regular expression \<open>p\<close>, and \<open>eng_near e x y r\<close> the test
  whether coordinates lie within \<open>r\<close> metres of the point \<open>(x, y)\<close>; each is \<open>None\<close> when
  the store refuses the pattern, or the point or distance.
\<close>

record query_engine =
  eng_regex :: "string \<Rightarrow> (string \<Rightarrow> bool) option"
  eng_near :: "real \<Rightarrow> real \<Rightarrow> int \<Rightarrow> (real list \<Rightarrow> bool) option"

text \<open>
  A query fails, and the call of the store throws, when a value cannot be cast to the type
  of its path, when the search pattern is refused, or when the \<^verbatim>\<open>$near\<close> point has a
  coordinate that is \<^verbatim>\<open>NaN\<close> or is otherwise refused.
\<close>

definition rejected :: "query_engine \<Rightarrow> issue_filter \<Rightarrow> bool" where
  "rejected e f \<longleftrightarrow>
       f_official f = Malformed \<or> f_reportedBy f = Malformed
     \<or> f_createdGte f = Malformed \<or> f_createdLte f = Malformed
     \<or> (case f_search f of
           None \<Rightarrow> False
         | Some s \<Rightarrow> (case eng_regex e s of None \<Rightarrow> True | Some m \<Rightarrow> False))
     \<or> (case f_near f of
           None \<Rightarrow> False
         | Some n \<Rightarrow>
             (case (near_lng n, near_lat n) of
                (Some x, Some y) \<Rightarrow>
                  (case eng_near e x y (maxDistance n) of None \<Rightarrow> True | Some t \<Rightarrow> False)
              | _ \<Rightarrow> True))"

text \<open>
  Modelled from the spec: the filter predicate is the one of section 4.1: equality on
  status, category, priority, assigned official and reporter; an inclusive range on the
  creation time; the search pattern matched against title, description, address or
  category; and proximity. It is evaluated on the stored document, where a status that is
  unset equals no string.
\<close>

definition matches :: "query_engine \<Rightarrow> issue_filter \<Rightarrow> issue \<Rightarrow> bool" where
  "matches e f d \<longleftrightarrow>
       holds (f_status f) (\<lambda>s. status d = Some s)
     \<and> holds (f_category f) (\<lambda>c. category d = c)
     \<and> holds (f_priority f) (\<lambda>p. priority d = p)
     \<and> holdsGiven (f_official f) (\<lambda>u. Option.bind (assignedTo d) official = Some u)
     \<and> holdsGiven (f_reportedBy f) (\<lambda>u. reportedBy d = u)
     \<and> holdsGiven (f_createdGte f) (\<lambda>t. t \<le> createdAt d)
     \<and> holdsGiven (f_createdLte f) (\<lambda>t. createdAt d \<le> t)
     \<and> holds (f_search f) (\<lambda>s.
           (case eng_regex e s of
              None \<Rightarrow> False
            | Some m \<Rightarrow> m (title d) \<or> m (description d) \<or> m (address (location d)) \<or> m (category d)))
     \<and> holds (f_near f) (\<lambda>n.
           (case (near_lng n, near_lat n) of
              (Some x, Some y) \<Rightarrow>
                (case eng_near e x y (maxDistance n) of
                   None \<Rightarrow> False
                 | Some t \<Rightarrow> t (coordinates (location d)))
            | _ \<Rightarrow> False))"

text \<open>Sorting on one field; a field the model does not know orders nothing.\<close>

definition sortKey :: "string \<Rightarrow> issue \<Rightarrow> int list" where
  "sortKey f d =
     (if f = ''createdAt'' then [createdAt d]
      else if f = ''updatedAt'' then [updatedAt d]
      else if f = ''votes'' then [votes d]
      else if f = ''title'' then map of_char (title d)
      else if f = ''category'' then map of_char (category d)
      else if f = ''status'' then (case status d of None \<Rightarrow> [] | Some s \<Rightarrow> map of_char s)
      else if f = ''priority'' then map of_char (priority d)
      else [])"

definition sortIssues :: "string \<Rightarrow> int \<Rightarrow> issue list \<Rightarrow> issue list" where
  "sortIssues f dir ds = (if dir = 1 then sort_key (sortKey f) ds else rev (sort_key (sortKey f) ds))"

record page_result =
  docs :: "issue list"
  totalDocs :: nat
  page :: int
  totalPages :: int
  limit :: int

text \<open>
  Modelled from the spec: the pagination plugin is a third-party package. Section 4.1
  gives a 1-based page number and a page size, the total count and a page count of
  \<open>ceil(total/limit)\<close>, and lets malformed numeric inputs default to \<open>page = 1\<close> and
  \<open>limit = 10\<close>; section 6 requires \<open>page \<ge> 1\<close> and \<open>limit \<ge> 1\<close>. So a page that is
  \<^verbatim>\<open>NaN\<close> or below 1 counts as 1, and a limit that is \<^verbatim>\<open>NaN\<close> or below 1 as 10.
\<close>

definition pageNumber :: "int option \<Rightarrow> int" where
  "pageNumber p = (case p of None \<Rightarrow> 1 | Some n \<Rightarrow> if 1 \<le> n then n else 1)"

definition pageSize :: "int option \<Rightarrow> int" where
  "pageSize l = (case l of None \<Rightarrow> 10 | Some n \<Rightarrow> if 1 \<le> n then n else 10)"

text \<open>
  \<^verbatim>\<open>Issue.paginate(filter, options)\<close>; \<open>None\<close> when the store rejects the query and the call
  throws. The documents of the page are loaded, so they carry the schema's defaults.
\<close>

definition paginate ::
  "query_engine \<Rightarrow> store \<Rightarrow> issue_filter \<Rightarrow> paginate_options \<Rightarrow> page_result option" where
  "paginate e st f opts =
     (if rejected e f then None
      else
        let p = pageNumber (opt_page opts);
            l = pageSize (opt_limit opts);
            found = sortIssues (opt_sortBy opts) (opt_sortDir opts) (filter (matches e f) (issues st))
        in Some \<lparr>docs = map hydrate (take (nat l) (drop (nat ((p - 1) * l)) found)),
                 totalDocs = length found,
                 page = p,
                 totalPages = (int (length found) + l - 1) div l,
                 limit = l\<rparr>)"

subsection \<open>The listing handlers\<close>

definition isGovernment :: "user option \<Rightarrow> bool" where
  "isGovernment requester = (case requester of None \<Rightarrow> False | Some u \<Rightarrow> role u = ''government'')"

text \<open>
  \<^verbatim>\<open>getAllIssues\<close>: the role check, then the query; whatever the query throws is caught
  and answered 500.
\<close>

definition getAllIssues ::
  "query_engine \<Rightarrow> store \<Rightarrow> user option \<Rightarrow> list_query \<Rightarrow> error + page_result" where
  "getAllIssues e st requester q =
     (if \<not> isGovernment requester then Inl Forbidden
      else (case paginate e st (listFilter q) (listOptions q) of
              None \<Rightarrow> Inl (ServerError ''Failed to fetch issues'')
            | Some r \<Rightarrow> Inr r))"

text \<open>
  \<^verbatim>\<open>getAllIssuesFull\<close>: every document, newest first, shaped for the table of all issues.
  The documents are read with \<^verbatim>\<open>lean()\<close>, as stored.
\<close>

record issue_row =
  row_id :: oid
  row_title :: string
  row_description :: string
  row_category :: string
  row_priority :: string
  row_status :: "string option"
  row_reporter :: oid
  row_address :: string
  row_date :: time
  row_votes :: int

definition toRow :: "issue \<Rightarrow> issue_row" where
  "toRow doc =
     \<lparr>row_id = issue_id doc,
      row_title = title doc,
      row_description = description doc,
      row_category = category doc,
      row_priority = priority doc,
      row_status = status doc,
      row_reporter = reportedBy doc,
      row_address = address (location doc),
      row_date = createdAt doc,
      row_votes = votes doc\<rparr>"

definition getAllIssuesFull :: "store \<Rightarrow> user option \<Rightarrow> error + issue_row list" where
  "getAllIssuesFull st requester =
     (if \<not> isGovernment requester then Inl Forbidden
      else Inr (map toRow (sortIssues ''createdAt'' (- 1) (issues st))))"

text \<open>A merged duplicate of the sample issue, and the store holding both.\<close>

definition duplicateIssue :: issue where
  "duplicateIssue =
     exampleIssue\<lparr>issue_id := 2, reportedBy := 8, reporters := [8], createdAt := 1500,
                  updatedAt := 1500, mergedInto := Some 1\<rparr>"

definition mergedStore :: store where
  "mergedStore = \<lparr>issues = [exampleIssue\<lparr>duplicates := [2], reporters := [7, 8]\<rparr>, duplicateIssue]\<rparr>"

definition official3 :: user where
  "official3 = \<lparr>user_id = 3, role = ''government''\<rparr>"

text \<open>
  An engine for the examples, none of which searches or filters by place: it reads a
  pattern as a literal and puts every document within range.
\<close>

definition plainEngine :: query_engine where
  "plainEngine =
     \<lparr>eng_regex = (\<lambda>p. Some (containsIgnoreCase p)),
      eng_near = (\<lambda>x y r. Some (\<lambda>c. True))\<rparr>"

definition emptyQuery :: list_query where
  "emptyQuery =
     \<lparr>q_status = None, q_category = None, q_priority = None, q_assignedTo = Absent,
      q_reportedBy = Absent, q_location = None, q_page = None, q_limit = None, q_sortBy = None,
      q_sortOrder = None, q_search = None, q_dateFrom = Absent, q_dateTo = Absent\<rparr>"

text \<open>
  Listing requests with a malformed number: a limit of \<open>'1x'\<close> and a page of \<open>'2nd'\<close>, which
  have a leading integer, and a page and limit of \<open>'abc'\<close>, which have none.
\<close>

definition limitQuery :: list_query where
  "limitQuery = emptyQuery\<lparr>q_limit := Some ''1x''\<rparr>"

definition secondPageQuery :: list_query where
  "secondPageQuery = emptyQuery\<lparr>q_page := Some ''2nd''\<rparr>"

definition wordQuery :: list_query where
  "wordQuery = emptyQuery\<lparr>q_page := Some ''abc'', q_limit := Some ''abc''\<rparr>"

text \<open>And one with a place whose coordinates are no numbers.\<close>

definition placeQuery :: list_query where
  "placeQuery = emptyQuery\<lparr>q_location := Some ''abc,def''\<rparr>"

section \<open>Reporting an issue\<close>

text \<open>Loosely typed fields of a request body, and the two coercions the handler applies.\<close>

datatype jsval = JUndefined | JString string | JNumber real

definition isTruthy :: "jsval \<Rightarrow> bool" where
  "isTruthy v = (case v of JUndefined \<Rightarrow> False | JString s \<Rightarrow> s \<noteq> [] | JNumber r \<Rightarrow> r \<noteq> 0)"

definition orElse :: "jsval \<Rightarrow> jsval \<Rightarrow> jsval" where
  "orElse a b = (if isTruthy a then a else b)"

definition parseFloatOf :: "jsval \<Rightarrow> real option" where
  "parseFloatOf v = (case v of JUndefined \<Rightarrow> None | JString s \<Rightarrow> parseFloat s | JNumber r \<Rightarrow> Some r)"

definition trim :: "string \<Rightarrow> string" where
  "trim s = rev (dropWhile isWhiteSpace (rev (dropWhile isWhiteSpace s)))"

text \<open>
  The location as the client sent it. \<open>ld_coordinates\<close> is \<open>None\<close> unless the field is an
  array (of numbers); \<open>LocationJson\<close> stands for a string that starts with a brace, with the
  object \<^verbatim>\<open>JSON.parse\<close> makes of it (\<open>None\<close> when it throws); \<open>LocationMissing\<close> is a
  missing, empty or otherwise unusable value.
\<close>

record location_data =
  ld_coordinates :: "real list option"
  ld_address :: "string option"
  ld_city :: "string option"
  ld_state :: "string option"
  ld_pincode :: "string option"
  ld_lat :: jsval
  ld_lng :: jsval

datatype location_input =
    LocationMissing
  | LocationJson "location_data option"
  | LocationAddress string
  | LocationObject location_data

text \<open>
  Client-provided image URLs (\<^verbatim>\<open>req.body.images || req.body.imageUrls\<close>): a JSON string
  (with its parsed array, \<open>None\<close> when parsing fails or gives no array) or an array.
\<close>

datatype image_input = ImagesMissing | ImagesJson "jsval list option" | ImagesArray "jsval list"

record create_body =
  b_title :: string
  b_description :: string
  b_category :: string
  b_location :: location_input
  b_priority :: "string option"
  b_latitude :: jsval
  b_lat :: jsval
  b_longitude :: jsval
  b_lng :: jsval
  b_long :: jsval
  b_imageUrls :: image_input
  b_uploads :: "string option list option"

text \<open>
  \<open>b_uploads\<close> is \<^verbatim>\<open>req.files.images\<close> with the outcome of each upload to the image host: the
  URL, or \<open>None\<close> for a failed upload; it is \<open>None\<close> when the request carries no file.
\<close>

definition categories :: "string list" where
  "categories =
     [''Roads & Infrastructure'', ''Waste Management'', ''Electricity'', ''Water Supply'',
      ''Sewage & Drainage'', ''Traffic & Transportation'', ''Public Safety'',
      ''Parks & Recreation'', ''Street Lighting'', ''Noise Pollution'', ''Other'']"

definition priorities :: "string list" where
  "priorities = [''low'', ''medium'', ''high'', ''urgent'']"

definition statuses :: "string list" where
  "statuses = [''pending'', ''acknowledged'', ''assigned'', ''in-progress'', ''resolved'',
               ''rejected'', ''closed'']"

definition notificationTypes :: "string list" where
  "notificationTypes = [''status_change'', ''assignment'', ''comment'', ''resolution'']"

text \<open>The route's \<^verbatim>\<open>validateIssue\<close> chain: the messages of \<^verbatim>\<open>validationResult(req)\<close>.\<close>

definition validateIssue :: "create_body \<Rightarrow> string list" where
  "validateIssue b =
     (if 3 \<le> length (trim (b_title b)) \<and> length (trim (b_title b)) \<le> 100 then []
      else [''Title must be between 3 and 100 characters''])
   @ (if 10 \<le> length (trim (b_description b)) \<and> length (trim (b_description b)) \<le> 1000 then []
      else [''Description must be between 10 and 1000 characters''])
   @ (if b_category b \<in> set categories then [] else [''Invalid category''])
   @ (case b_priority b of
        None \<Rightarrow> []
      | Some p \<Rightarrow> if p \<in> set priorities then [] else [''Invalid priority''])"

definition isHttpUrl :: "jsval \<Rightarrow> bool" where
  "isHttpUrl v =
     (case v of JString u \<Rightarrow> isPrefixOf ''http://'' u \<or> isPrefixOf ''https://'' u | _ \<Rightarrow> False)"

definition stringOf :: "jsval \<Rightarrow> string" where
  "stringOf v = (case v of JString s \<Rightarrow> s | _ \<Rightarrow> [])"

definition collectImages :: "create_body \<Rightarrow> string list" where
  "collectImages b =
     (case b_uploads b of
        Some uploaded \<Rightarrow> filter (\<lambda>u. u \<noteq> []) (List.map_filter (\<lambda>u. u) uploaded)
      | None \<Rightarrow>
          (case b_imageUrls b of
             ImagesMissing \<Rightarrow> []
           | ImagesJson None \<Rightarrow> []
           | ImagesJson (Some raw) \<Rightarrow> map stringOf (filter isHttpUrl raw)
           | ImagesArray raw \<Rightarrow> map stringOf (filter isHttpUrl raw)))"

text \<open>
  Parsing and normalising the location: the \<^verbatim>\<open>try\<close> block, then the coordinates taken from
  \<^verbatim>\<open>latitude\<close>/\<^verbatim>\<open>lat\<close> and \<^verbatim>\<open>longitude\<close>/\<^verbatim>\<open>lng\<close>/\<^verbatim>\<open>long\<close> of the body, or else from the
  location's own \<^verbatim>\<open>lat\<close> and \<^verbatim>\<open>lng\<close>, when the location has no coordinate array.
\<close>

definition readLocation :: "location_input \<Rightarrow> error + location_data option" where
  "readLocation l =
     (case l of
        LocationMissing \<Rightarrow> Inr None
      | LocationJson None \<Rightarrow> Inl (BadRequest ''Invalid location format'')
      | LocationJson (Some ld) \<Rightarrow> Inr (Some ld)
      | LocationAddress s \<Rightarrow>
          Inr (Some \<lparr>ld_coordinates = None, ld_address = Some (trim s), ld_city = None,
                     ld_state = None, ld_pincode = None, ld_lat = JUndefined, ld_lng = JUndefined\<rparr>)
      | LocationObject ld \<Rightarrow> Inr (Some ld))"

definition coordinatesFrom :: "jsval \<Rightarrow> jsval \<Rightarrow> location_data \<Rightarrow> location_data" where
  "coordinatesFrom lat lng ld =
     (case (parseFloatOf lat, parseFloatOf lng) of
        (Some latNum, Some lngNum) \<Rightarrow> ld\<lparr>ld_coordinates := Some [lngNum, latNum]\<rparr>
      | _ \<Rightarrow> ld)"

definition deriveCoordinates :: "create_body \<Rightarrow> location_data \<Rightarrow> location_data" where
  "deriveCoordinates b ld =
     (let rawLat = orElse (b_latitude b) (b_lat b);
          rawLng = orElse (b_longitude b) (orElse (b_lng b) (b_long b))
      in if ld_coordinates ld = None
         then if isTruthy rawLat \<and> isTruthy rawLng then coordinatesFrom rawLat rawLng ld
              else if isTruthy (ld_lat ld) \<and> isTruthy (ld_lng ld)
                   then coordinatesFrom (ld_lat ld) (ld_lng ld) ld
                   else ld
         else ld)"

definition parsedLocation :: "create_body \<Rightarrow> error + location_data option" where
  "parsedLocation b =
     (case readLocation (b_location b) of
        Inl e \<Rightarrow> Inl e
      | Inr None \<Rightarrow> Inr None
      | Inr (Some ld) \<Rightarrow> Inr (Some (deriveCoordinates b ld)))"

definition hasAddress :: "location_data \<Rightarrow> bool" where
  "hasAddress ld = (case ld_address ld of None \<Rightarrow> False | Some a \<Rightarrow> a \<noteq> [])"

text \<open>
  The schema's constraints, checked when a document is saved: required paths, the
  enumerations (which a path that is \<^verbatim>\<open>undefined\<close> and not required passes), and a number
  where a number is declared.
\<close>

definition inEnum :: "string list \<Rightarrow> string option \<Rightarrow> bool" where
  "inEnum values v = (case v of None \<Rightarrow> True | Some s \<Rightarrow> s \<in> set values)"

definition schemaErrors :: "issue \<Rightarrow> string list" where
  "schemaErrors d =
     (if title d = [] then [''title''] else [])
   @ (if description d = [] then [''description''] else [])
   @ (if category d \<in> set categories then [] else [''category''])
   @ (if coordinates (location d) = [] then [''location.coordinates''] else [])
   @ (if address (location d) = [] then [''location.address''] else [])
   @ (if [] \<in> set (images d) then [''images''] else [])
   @ (if inEnum statuses (status d) then [] else [''status''])
   @ (if priority d \<in> set priorities then [] else [''priority''])
   @ (if list_all (\<lambda>e. inEnum statuses (entry_status e)) (statusHistory d) then []
      else [''statusHistory.status''])
   @ (if list_all (\<lambda>n. note_type n \<in> set notificationTypes) (notifications d) then []
      else [''notifications.type''])
   @ (if estimatedResolutionTime d = None then [''estimatedResolutionTime''] else [])"

text \<open>The \<^verbatim>\<open>pre('save')\<close> hook of the schema, which runs for new documents.\<close>

definition preSave :: "issue \<Rightarrow> issue" where
  "preSave d =
     (if reportedBy d \<in> set (reporters d) then d
      else d\<lparr>reporters := reporters d @ [reportedBy d]\<rparr>)"

text \<open>
  \<^verbatim>\<open>new Issue({...})\<close> as \<^verbatim>\<open>createIssue\<close> fills it, with the schema's defaults for the
  paths it leaves out, a fresh id, and both timestamps set to the time of creation. Title
  and description arrive trimmed by the validation chain's sanitizers; the schema's own
  \<^verbatim>\<open>trim\<close> then changes nothing (lemma \<open>trim_trim\<close>).
\<close>

definition newIssue ::
  "time \<Rightarrow> oid \<Rightarrow> oid \<Rightarrow> create_body \<Rightarrow> string list \<Rightarrow> location_data \<Rightarrow> real list \<Rightarrow> string \<Rightarrow> issue" where
  "newIssue now fresh userId b imgs ld coords addr =
     (let pr = (case b_priority b of None \<Rightarrow> ''low'' | Some p \<Rightarrow> p)
      in \<lparr>issue_id = fresh,
          title = trim (b_title b),
          description = trim (b_description b),
          category = b_category b,
          location = \<lparr>coordinates = coords, address = addr, city = ld_city ld,
                      state = ld_state ld, pincode = ld_pincode ld\<rparr>,
          images = imgs,
          voiceNote = None,
          reportedBy = userId,
          assignedTo = None,
          status = Some ''pending'',
          votes = 0,
          voters = [],
          priority = pr,
          priorityReasons = [],
          priorityAuto = True,
          statusHistory = [\<lparr>entry_status = Some ''pending'', entry_updatedBy = None,
                            entry_comment = ''Issue reported by citizen'', entry_timestamp = now\<rparr>],
          notifications = [\<lparr>note_message = ''Your issue has been successfully reported and is under review'',
                            note_type = ''status_change'', note_timestamp = now, note_read = False\<rparr>],
          estimatedResolutionTime = calculateEstimatedResolutionTime (b_category b) pr,
          actualResolutionTime = None,
          resolutionDetails = None,
          createdAt = now,
          updatedAt = now,
          mergedInto = None,
          duplicates = [],
          reporters = []\<rparr>)"

definition insertIssue :: "store \<Rightarrow> issue \<Rightarrow> store" where
  "insertIssue st d = st\<lparr>issues := issues st @ [d]\<rparr>"

text \<open>
  \<^verbatim>\<open>createIssue\<close>. The checks come in the handler's order: validation result, location
  format, coordinates, then the document is built (which reads \<^verbatim>\<open>req.user.id\<close>) and
  saved. No stored issue is looked up or changed.
\<close>

definition createIssue :: "time \<Rightarrow> store \<Rightarrow> user option \<Rightarrow> create_body \<Rightarrow> error + store \<times> issue" where
  "createIssue now st requester b =
     (if validateIssue b \<noteq> [] then Inl (BadRequest ''Validation errors'')
      else
        (case parsedLocation b of
           Inl e \<Rightarrow> Inl e
         | Inr None \<Rightarrow> Inl (BadRequest ''Location coordinates required (lng,lat)'')
         | Inr (Some ld) \<Rightarrow>
             (case ld_coordinates ld of
                None \<Rightarrow> Inl (BadRequest ''Location coordinates required (lng,lat)'')
              | Some coords \<Rightarrow>
                  if length coords \<noteq> 2
                  then Inl (BadRequest ''Location coordinates required (lng,lat)'')
                  else
                    let addr = (case ld_address ld of
                                  None \<Rightarrow> ''Address not specified''
                                | Some a \<Rightarrow> if a = [] then ''Address not specified'' else a)
                    in (case requester of
                          None \<Rightarrow> Inl (ServerError ''Failed to report issue'')
                        | Some u \<Rightarrow>
                            let d = newIssue now (freshId st) (user_id u) b (collectImages b)
                                      ld coords addr
                            in if schemaErrors d \<noteq> [] then Inl (BadRequest ''Validation failed'')
                               else Inr (insertIssue st (preSave d), preSave d)))))"

definition emptyStore :: store where
  "emptyStore = \<lparr>issues = []\<rparr>"

definition sampleLocation :: location_data where
  "sampleLocation =
     \<lparr>ld_coordinates = Some [77, 13], ld_address = None, ld_city = Some ''Bengaluru'',
      ld_state = None, ld_pincode = None, ld_lat = JUndefined, ld_lng = JUndefined\<rparr>"

definition sampleBody :: create_body where
  "sampleBody =
     \<lparr>b_title = ''Pothole on Main Street'',
      b_description = ''A deep pothole near the bus stop'',
      b_category = ''Roads & Infrastructure'',
      b_location = LocationJson (Some sampleLocation),
      b_priority = None,
      b_latitude = JUndefined, b_lat = JUndefined, b_longitude = JUndefined,
      b_lng = JUndefined, b_long = JUndefined,
      b_imageUrls = ImagesMissing,
      b_uploads = None\<rparr>"

text \<open>The same report submitted twice, the second time to the store the first one left.\<close>

definition firstReport :: "error + store \<times> issue" where
  "firstReport = createIssue 1000 emptyStore (Some citizen9) sampleBody"

definition secondReport :: "error + store \<times> issue" where
  "secondReport = createIssue 2000 (storeOf emptyStore firstReport) (Some citizen9) sampleBody"

section \<open>Reading one issue\<close>

definition reporter7 :: user where
  "reporter7 = \<lparr>user_id = 7, role = ''citizen''\<rparr>"


definition markAllRead :: "issue \<Rightarrow> issue" where
  "markAllRead d = d\<lparr>notifications := map (\<lambda>n. n\<lparr>note_read := True\<rparr>) (notifications d)\<rparr>"

definition viewedByReporter :: "user option \<Rightarrow> issue \<Rightarrow> bool" where
  "viewedByReporter requester d =
     (case requester of None \<Rightarrow> False | Some u \<Rightarrow> user_id u = reportedBy d)"

text \<open>
  \<^verbatim>\<open>getIssueById\<close>: when the reader is the reporter, every notification is marked read and
  the document is saved before it is returned.
\<close>

definition getIssueById :: "time \<Rightarrow> store \<Rightarrow> user option \<Rightarrow> oid \<Rightarrow> error + store \<times> issue" where
  "getIssueById now st requester i =
     (case findById st i of
        None \<Rightarrow> Inl NotFound
      | Some d \<Rightarrow>
          if viewedByReporter requester d
          then Inr (save now st d (markAllRead d), stamp now d (markAllRead d))
          else Inr (st, d))"


section \<open>Assignment and status updates\<close>

record assign_body =
  ab_department :: "string option"
  ab_officialId :: "oid option"
  ab_comment :: "string option"

record resolution_input =
  ri_description :: "string option"
  ri_images :: "string list option"

record status_body =
  sb_status :: "string option"
  sb_comment :: "string option"
  sb_resolutionDetails :: "resolution_input option"

text \<open>
  The bodies as the handlers destructure them: a field the body lacks is \<^verbatim>\<open>undefined\<close>
  (\<open>None\<close>). The routes declare validators for the department (not empty) and the status
  (one of the seven statuses), but neither handler consults the validation result, so any
  string, and a body without the field, reaches it.
\<close>

text \<open>A value in a template string: \<^verbatim>\<open>undefined\<close> prints as the word.\<close>

definition printed :: "string option \<Rightarrow> string" where
  "printed x = (case x of None \<Rightarrow> ''undefined'' | Some s \<Rightarrow> s)"

text \<open>\<^verbatim>\<open>x || d\<close> on an optional string.\<close>

definition orString :: "string option \<Rightarrow> string \<Rightarrow> string" where
  "orString x d = (case truthy x of None \<Rightarrow> d | Some s \<Rightarrow> s)"

text \<open>
  Saving a changed document: of the paths these two handlers assign, only the status
  (and the status of the history entry, which is the same value) can violate the schema.
  A validation error is caught by the handler and answered 500.
\<close>

definition saveChecked :: "string \<Rightarrow> time \<Rightarrow> store \<Rightarrow> issue \<Rightarrow> issue \<Rightarrow> error + store \<times> issue" where
  "saveChecked failure now st old new =
     (if inEnum statuses (status new)
         \<and> list_all (\<lambda>e. inEnum statuses (entry_status e))
               (drop (length (statusHistory old)) (statusHistory new))
      then Inr (save now st old new, stamp now old new)
      else Inl (ServerError failure))"

definition assigned :: "time \<Rightarrow> oid \<Rightarrow> assign_body \<Rightarrow> issue \<Rightarrow> issue" where
  "assigned now userId b d =
     d\<lparr>assignedTo := Some \<lparr>department = ab_department b, official = ab_officialId b\<rparr>,
       status := Some ''assigned'',
       statusHistory := statusHistory d @
         [\<lparr>entry_status = Some ''assigned'', entry_updatedBy = Some userId,
           entry_comment = orString (ab_comment b)
             (''Issue assigned to '' @ printed (ab_department b) @ '' department'' @
              (if ab_officialId b \<noteq> None then '' and specific official'' else [])),
           entry_timestamp = now\<rparr>],
       notifications := notifications d @
         [\<lparr>note_message = ''Your issue has been assigned to the '' @ printed (ab_department b) @
                            '' department'',
           note_type = ''assignment'', note_timestamp = now, note_read = False\<rparr>]\<rparr>"

definition assignIssue ::
  "time \<Rightarrow> store \<Rightarrow> user option \<Rightarrow> oid \<Rightarrow> assign_body \<Rightarrow> error + store \<times> issue" where
  "assignIssue now st requester i b =
     (case requester of
        None \<Rightarrow> Inl (ServerError ''Failed to assign issue'')
      | Some u \<Rightarrow>
          if role u \<noteq> ''government'' then Inl Forbidden
          else (case findById st i of
                  None \<Rightarrow> Inl NotFound
                | Some d \<Rightarrow>
                    saveChecked ''Failed to assign issue'' now st d (assigned now (user_id u) b d)))"

definition resolutionTimeHours :: "time \<Rightarrow> time \<Rightarrow> int" where
  "resolutionTimeHours created resolvedAt =
     Math_round (real_of_int (resolvedAt - created) / (1000 * 60 * 60))"

definition statusUpdated :: "time \<Rightarrow> oid \<Rightarrow> status_body \<Rightarrow> issue \<Rightarrow> issue" where
  "statusUpdated now userId b d =
     (let oldStatus = status d;
          d1 = d\<lparr>status := sb_status b,
                 statusHistory := statusHistory d @
                   [\<lparr>entry_status = sb_status b, entry_updatedBy = Some userId,
                     entry_comment = orString (sb_comment b)
                       (''Status changed from '' @ printed oldStatus @ '' to '' @ printed (sb_status b)),
                     entry_timestamp = now\<rparr>]\<rparr>
      in if sb_status b = Some ''resolved''
         then d1\<lparr>resolutionDetails := Some
                   \<lparr>resolvedBy = userId,
                    resolutionDate = now,
                    resolutionDescription =
                      orString (Option.bind (sb_resolutionDetails b) ri_description)
                        ''Issue has been resolved'',
                    resolutionImages =
                      (case Option.bind (sb_resolutionDetails b) ri_images of
                         None \<Rightarrow> [] | Some imgs \<Rightarrow> imgs)\<rparr>,
                 actualResolutionTime := Some (resolutionTimeHours (createdAt d) now),
                 notifications := notifications d @
                   [\<lparr>note_message = ''Your issue has been resolved! Thank you for reporting.'',
                     note_type = ''resolution'', note_timestamp = now, note_read = False\<rparr>]\<rparr>
         else d1\<lparr>notifications := notifications d @
                   [\<lparr>note_message = ''Your issue status has been updated to: '' @ printed (sb_status b),
                     note_type = ''status_change'', note_timestamp = now, note_read = False\<rparr>]\<rparr>)"

definition updateIssueStatus ::
  "time \<Rightarrow> store \<Rightarrow> user option \<Rightarrow> oid \<Rightarrow> status_body \<Rightarrow> error + store \<times> issue" where
  "updateIssueStatus now st requester i b =
     (case requester of
        None \<Rightarrow> Inl (ServerError ''Failed to update issue status'')
      | Some u \<Rightarrow>
          if role u \<noteq> ''government'' then Inl Forbidden
          else (case findById st i of
                  None \<Rightarrow> Inl NotFound
                | Some d \<Rightarrow>
                    saveChecked ''Failed to update issue status'' now st d
                      (statusUpdated now (user_id u) b d)))"

text \<open>A sequence of assignment and status-update requests; a failed request changes nothing.\<close>

datatype workflow_request =
    Assign time "user option" oid assign_body
  | UpdateStatus time "user option" oid status_body

fun afterRequest :: "store \<Rightarrow> workflow_request \<Rightarrow> store" where
  "afterRequest st (Assign now requester i b) = storeOf st (assignIssue now st requester i b)"
| "afterRequest st (UpdateStatus now requester i b) = storeOf st (updateIssueStatus now st requester i b)"

definition afterRequests :: "store \<Rightarrow> workflow_request list \<Rightarrow> store" where
  "afterRequests st rs = foldl afterRequest st rs"

text \<open>The history has an entry, and its last entry carries the status of the issue.\<close>

definition historyConsistent :: "issue \<Rightarrow> bool" where
  "historyConsistent d \<longleftrightarrow>
     1 \<le> length (statusHistory d) \<and> entry_status (last (statusHistory d)) = status d"

text \<open>A sample sequence of requests on the first issue of a store.\<close>

definition sampleRequests :: "workflow_request list" where
  "sampleRequests =
     [Assign 3000 (Some official3) 0
        \<lparr>ab_department = Some ''Roads'', ab_officialId = None, ab_comment = None\<rparr>,
      UpdateStatus 4000 (Some citizen9) 0
        \<lparr>sb_status = Some ''closed'', sb_comment = None, sb_resolutionDetails = None\<rparr>,
      UpdateStatus 5000 (Some official3) 0
        \<lparr>sb_status = Some ''done'', sb_comment = None, sb_resolutionDetails = None\<rparr>,
      UpdateStatus 6000 (Some official3) 0
        \<lparr>sb_status = Some ''in-progress'', sb_comment = Some ''Crew sent'',
         sb_resolutionDetails = None\<rparr>]"

text \<open>A request carries a status when it is an assignment or its body has the field.\<close>

fun carriesStatus :: "workflow_request \<Rightarrow> bool" where
  "carriesStatus (Assign now requester i b) = True"
| "carriesStatus (UpdateStatus now requester i b) = (sb_status b \<noteq> None)"

text \<open>
  A status update whose body has no \<open>status\<close>, sent by a government user for the issue of
  the first sample report after its assignment.
\<close>

definition statuslessBody :: status_body where
  "statuslessBody = \<lparr>sb_status = None, sb_comment = None, sb_resolutionDetails = None\<rparr>"

definition assignedReport :: store where
  "assignedReport =
     afterRequests (storeOf emptyStore firstReport)
       [Assign 3000 (Some official3) 0
          \<lparr>ab_department = Some ''Roads'', ab_officialId = None, ab_comment = None\<rparr>]"

definition statuslessUpdate :: "error + store \<times> issue" where
  "statuslessUpdate = updateIssueStatus 4000 assignedReport (Some official3) 0 statuslessBody"

definition statuslessRequests :: "workflow_request list" where
  "statuslessRequests =
     [Assign 3000 (Some official3) 0
        \<lparr>ab_department = Some ''Roads'', ab_officialId = None, ab_comment = None\<rparr>,
      UpdateStatus 4000 (Some official3) 0 statuslessBody]"

section \<open>Sequences of requests\<close>

text \<open>
  The requests that write to the store, and the store after each; listings only read. The
  states the handlers can produce are those reached from the empty store.
\<close>

datatype request =
    Create time "user option" create_body
  | Read time "user option" oid
  | Vote time "user option" oid
  | Workflow workflow_request

fun handle :: "store \<Rightarrow> request \<Rightarrow> store" where
  "handle st (Create now requester b) = storeOf st (createIssue now st requester b)"
| "handle st (Read now requester i) = storeOf st (getIssueById now st requester i)"
| "handle st (Vote now requester i) = afterVote st (now, requester, i)"
| "handle st (Workflow r) = afterRequest st r"

definition reachable :: "store \<Rightarrow> bool" where
  "reachable st \<longleftrightarrow> (\<exists>rs. st = foldl handle emptyStore rs)"

definition wellFormed :: "store \<Rightarrow> bool" where
  "wellFormed st \<longleftrightarrow>
     list_all (\<lambda>d. votesConsistent d \<and> distinct (voters d)) (issues st)"
section \<open>Properties of the estimate\<close>

lemma map_of_baseHours_nonzero: "map_of baseHours c = Some h \<Longrightarrow> h \<noteq> 0"
  by (auto simp: baseHours_def split: if_splits)

lemma baseHours_orDefault:
  "c \<notin> set objectPrototypeKeys \<Longrightarrow>
   orDefault (getProperty baseHours c) 48 = Some (baseHoursForCategory c)"
  by (auto simp: orDefault_def getProperty_def baseHoursForCategory_def
      dest: map_of_baseHours_nonzero split: option.splits)

lemma priorityMultiplier_orDefault:
  "p \<notin> set objectPrototypeKeys \<Longrightarrow>
   orDefault (getProperty priorityMultiplier p) 1 = Some (priorityMultiplierFor p)"
  by (simp add: orDefault_def getProperty_def priorityMultiplierFor_def priorityMultiplier_def)

section \<open>Properties of the store\<close>

lemma hydrate_frame [simp]:
  "issue_id (hydrate d) = issue_id d" "votes (hydrate d) = votes d" "voters (hydrate d) = voters d"
  "statusHistory (hydrate d) = statusHistory d" "notifications (hydrate d) = notifications d"
  "reportedBy (hydrate d) = reportedBy d" "createdAt (hydrate d) = createdAt d"
  "updatedAt (hydrate d) = updatedAt d"
  by (simp_all add: hydrate_def split: option.splits)

lemma hydrate_status: "status (hydrate d) = Some (case status d of None \<Rightarrow> ''pending'' | Some s \<Rightarrow> s)"
  by (simp add: hydrate_def split: option.splits)

lemma hydrate_given: "status d \<noteq> None \<Longrightarrow> hydrate d = d"
  by (auto simp: hydrate_def split: option.splits)

lemma findById_id: "findById st i = Some d \<Longrightarrow> issue_id d = i"
  by (auto simp: findById_def find_Some_iff)

lemma findById_status: "findById st i = Some d \<Longrightarrow> status d \<noteq> None"
  by (auto simp: findById_def hydrate_status)

lemma findById_stored:
  "findById st i = Some d \<Longrightarrow> \<exists>d0 \<in> set (issues st). d = hydrate d0"
  by (auto simp: findById_def find_Some_iff)

lemma find_map_same_id:
  assumes "\<And>d. issue_id (f d) = issue_id d"
  shows "find (\<lambda>d. issue_id d = i) (map f xs) = map_option f (find (\<lambda>d. issue_id d = i) xs)"
  using assms by (induction xs) auto

lemma issue_id_stamp [simp]:
  "issue_id new = issue_id old \<Longrightarrow> issue_id (stamp now old new) = issue_id old"
  by (simp add: stamp_def)

lemma findById_save:
  assumes "issue_id new = issue_id old"
  shows "findById (save now st old new) i =
     (if i = issue_id old then map_option (\<lambda>_. hydrate (stamp now old new)) (findById st i)
      else findById st i)"
proof -
  let ?f = "\<lambda>d. if issue_id d = issue_id old then stamp now old new else d"
  let ?found = "find (\<lambda>d. issue_id d = i) (issues st)"
  have same: "\<And>d. issue_id (?f d) = issue_id d"
    using assms by simp
  have e: "findById (save now st old new) i = map_option hydrate (map_option ?f ?found)"
    unfolding findById_def save_def by (simp add: find_map_same_id [of ?f, OF same])
  show ?thesis
  proof (cases ?found)
    case None
    then show ?thesis
      unfolding e by (auto simp: findById_def)
  next
    case (Some d0)
    then have "issue_id d0 = i"
      by (auto simp: find_Some_iff)
    with Some show ?thesis
      unfolding e by (auto simp: findById_def)
  qed
qed

lemma status_stamp:
  "status (stamp now old new) = (if new = old then status old else status new)"
  by (simp add: stamp_def)

lemma findById_saved:
  assumes "findById st i = Some d" and "issue_id new = i" and "status new \<noteq> None"
  shows "findById (save now st d new) i = Some (stamp now d new)"
proof -
  have id: "issue_id d = i"
    by (rule findById_id [OF assms(1)])
  have "status (stamp now d new) \<noteq> None"
    using assms(3) findById_status [OF assms(1)] by (simp add: status_stamp)
  then have "hydrate (stamp now d new) = stamp now d new"
    by (rule hydrate_given)
  with assms(1,2) id show ?thesis
    by (simp add: findById_save)
qed

lemma findById_save_other:
  assumes "issue_id new = issue_id old" and "i \<noteq> issue_id old"
  shows "findById (save now st old new) i = findById st i"
  using assms by (simp add: findById_save)

section \<open>Properties of voting\<close>

lemma issue_id_toggleVote [simp]: "issue_id (toggleVote u d) = issue_id d"
  by (simp add: toggleVote_def)

lemma status_toggleVote [simp]: "status (toggleVote u d) = status d"
  by (simp add: toggleVote_def)

lemma toggleVote_changes: "toggleVote u d \<noteq> d"
proof
  assume eq: "toggleVote u d = d"
  then have v: "voters (toggleVote u d) = voters d" by simp
  show False
  proof (cases "u \<in> set (voters d)")
    case True
    with v have "filter (\<lambda>v. v \<noteq> u) (voters d) = voters d"
      by (simp add: toggleVote_def)
    then have "\<forall>v \<in> set (voters d). v \<noteq> u"
      by (simp add: filter_id_conv)
    with True show False by blast
  next
    case False
    with v show False by (simp add: toggleVote_def)
  qed
qed

lemma stamp_toggleVote: "stamp now d (toggleVote u d) = (toggleVote u d)\<lparr>updatedAt := now\<rparr>"
  by (simp add: stamp_def toggleVote_changes)

lemma toggleVote_updatedAt:
  "toggleVote u (d\<lparr>updatedAt := t\<rparr>) = (toggleVote u d)\<lparr>updatedAt := t\<rparr>"
  by (simp add: toggleVote_def)

lemma votesConsistent_updatedAt [simp]:
  "votesConsistent (d\<lparr>updatedAt := t\<rparr>) = votesConsistent d"
  by (simp add: votesConsistent_def)

lemma card_filter_neq:
  assumes "u \<in> set vs"
  shows "int (card (set (filter (\<lambda>v. v \<noteq> u) vs))) = int (card (set vs)) - 1"
proof -
  have "set (filter (\<lambda>v. v \<noteq> u) vs) = set vs - {u}"
    by auto
  moreover have "card (set vs) \<ge> 1"
    using assms by (metis List.finite_set card_gt_0_iff empty_iff less_eq_Suc_le One_nat_def)
  ultimately show ?thesis
    using assms by (simp add: of_nat_diff del: set_filter)
qed

lemma votesConsistent_toggleVote:
  assumes "votesConsistent d"
  shows "votesConsistent (toggleVote u d)"
proof (cases "u \<in> set (voters d)")
  case True
  with assms card_filter_neq [OF True] show ?thesis
    by (simp add: votesConsistent_def toggleVote_def del: set_filter)
next
  case False
  with assms show ?thesis
    by (simp add: votesConsistent_def toggleVote_def)
qed

lemma toggleVote_twice:
  assumes "votesConsistent d"
  shows "votes (toggleVote u (toggleVote u d)) = votes d"
    and "set (voters (toggleVote u (toggleVote u d))) = set (voters d)"
proof -
  show "votes (toggleVote u (toggleVote u d)) = votes d"
  proof (cases "u \<in> set (voters d)")
    case True
    then have "card (set (voters d)) \<ge> 1"
      by (metis List.finite_set card_gt_0_iff empty_iff less_eq_Suc_le One_nat_def)
    with True assms show ?thesis
      by (simp add: votesConsistent_def toggleVote_def)
  next
    case False
    with assms show ?thesis
      by (simp add: votesConsistent_def toggleVote_def)
  qed
  show "set (voters (toggleVote u (toggleVote u d))) = set (voters d)"
    by (cases "u \<in> set (voters d)") (auto simp: toggleVote_def)
qed

lemma voteOnIssue_found:
  assumes "findById st i = Some d"
  shows "voteOnIssue now st (Some u) i =
     Inr (save now st d (toggleVote (user_id u) d), votes (toggleVote (user_id u) d),
          user_id u \<notin> set (voters d))"
  using assms by (simp add: voteOnIssue_def Let_def)

lemma findById_after_vote:
  assumes "findById st i = Some d"
  shows "findById (save now st d (toggleVote u d)) i = Some ((toggleVote u d)\<lparr>updatedAt := now\<rparr>)"
  using findById_saved [OF assms, of "toggleVote u d" now] findById_id [OF assms]
    findById_status [OF assms]
  by (simp add: stamp_toggleVote)

lemma vote_twice_consistent:
  assumes "findById st i = Some d" and "votesConsistent d"
  shows "\<exists>st1 r1 st2 r2 d2.
           voteOnIssue t1 st (Some u) i = Inr (st1, r1)
         \<and> voteOnIssue t2 st1 (Some u) i = Inr (st2, r2)
         \<and> findById st2 i = Some d2
         \<and> votes d2 = votes d
         \<and> set (voters d2) = set (voters d)"
proof -
  let ?u = "user_id u"
  let ?d1 = "(toggleVote ?u d)\<lparr>updatedAt := t1\<rparr>"
  let ?st1 = "save t1 st d (toggleVote ?u d)"
  let ?d2 = "(toggleVote ?u ?d1)\<lparr>updatedAt := t2\<rparr>"
  let ?st2 = "save t2 ?st1 ?d1 (toggleVote ?u ?d1)"
  have f1: "findById ?st1 i = Some ?d1"
    by (rule findById_after_vote [OF assms(1)])
  have f2: "findById ?st2 i = Some ?d2"
    by (rule findById_after_vote [OF f1])
  have v1: "voteOnIssue t1 st (Some u) i = Inr (?st1, votes (toggleVote ?u d), ?u \<notin> set (voters d))"
    by (rule voteOnIssue_found [OF assms(1)])
  have v2: "voteOnIssue t2 ?st1 (Some u) i = Inr (?st2, votes (toggleVote ?u ?d1), ?u \<notin> set (voters ?d1))"
    by (rule voteOnIssue_found [OF f1])
  have "votes ?d2 = votes d" "set (voters ?d2) = set (voters d)"
    using toggleVote_twice [OF assms(2), of ?u] by (simp_all add: toggleVote_updatedAt)
  with v1 v2 f2 show ?thesis by blast
qed

lemma afterVote_consistent:
  assumes "findById st i = Some d" and "votesConsistent d"
  shows "\<exists>d'. findById (afterVote st r) i = Some d' \<and> votesConsistent d'"
proof -
  obtain now requester j where r: "r = (now, requester, j)"
    by (cases r) auto
  show ?thesis
  proof (cases "voteOnIssue now st requester j")
    case (Inl e)
    with assms r show ?thesis by (simp add: afterVote_def storeOf_def)
  next
    case (Inr res)
    then obtain dj u where dj: "findById st j = Some dj" and u: "requester = Some u"
      by (auto simp: voteOnIssue_def split: option.splits)
    have idj: "issue_id dj = j"
      by (rule findById_id [OF dj])
    have st': "afterVote st r = save now st dj (toggleVote (user_id u) dj)"
      using r dj u by (simp add: afterVote_def storeOf_def voteOnIssue_found)
    show ?thesis
    proof (cases "j = i")
      case True
      with dj assms(1) have "dj = d" by simp
      with assms True st' findById_after_vote [OF assms(1), of now "user_id u"] show ?thesis
        by (simp add: votesConsistent_toggleVote)
    next
      case False
      with assms st' idj show ?thesis
        by (simp add: findById_save_other)
    qed
  qed
qed

text \<open>
  C3. If an issue's \<open>votes\<close> equals the number of its voters, it still does after any
  sequence of vote requests, by any users and on any issues of the store.
\<close>

theorem votes_equal_voters_invariant:
  assumes "findById st i = Some d" and "votesConsistent d"
  shows "\<exists>d'. findById (afterVotes st rs) i = Some d' \<and> votesConsistent d'"
  using assms unfolding afterVotes_def
proof (induction rs arbitrary: st d)
  case Nil
  then show ?case by simp
next
  case (Cons r rs)
  from afterVote_consistent [OF Cons.prems] obtain d1
    where "findById (afterVote st r) i = Some d1" "votesConsistent d1"
    by blast
  from Cons.IH [OF this] show ?case by simp
qed

theorem votes_equal_voters_invariant_witness:
  "findById exampleStore 1 = Some exampleIssue \<and> votesConsistent exampleIssue
   \<and> (\<exists>d'. findById (afterVotes exampleStore
                 [(2000, Some citizen9, 1), (2500, Some reporter7, 1),
                  (2600, None, 1), (3000, Some citizen9, 1), (3500, Some citizen9, 5)]) 1 = Some d'
           \<and> votesConsistent d')"
proof -
  have h1: "findById exampleStore 1 = Some exampleIssue"
    by (simp add: findById_def hydrate_def exampleStore_def exampleIssue_def)
  have h2: "votesConsistent exampleIssue"
    by (simp add: votesConsistent_def exampleIssue_def)
  from votes_equal_voters_invariant [OF h1 h2] h1 h2 show ?thesis
    by simp
qed

section \<open>Properties of listing\<close>

lemma set_sortIssues [simp]: "set (sortIssues f dir ds) = set ds"
  by (simp add: sortIssues_def)

lemma full_listing_has_every_issue:
  assumes "isGovernment requester"
  shows "\<exists>rows. getAllIssuesFull st requester = Inr rows
               \<and> set (map row_id rows) = set (map issue_id (issues st))"
proof -
  have "row_id (toRow d) = issue_id d" for d
    by (simp add: toRow_def)
  then have "row_id ` toRow ` set (issues st) = issue_id ` set (issues st)"
    by (simp add: image_image)
  with assms show ?thesis
    by (simp add: getAllIssuesFull_def)
qed

text \<open>The filter of \<^verbatim>\<open>getAllIssues\<close> cannot tell a duplicate from a canonical issue.\<close>

lemma matches_ignores_mergedInto:
  "matches e f (d\<lparr>mergedInto := m\<rparr>) = matches e f d"
  by (simp add: matches_def cong: option.case_cong)

lemma emptyQuery_accepted: "\<not> rejected e (listFilter emptyQuery)"
  by (simp add: rejected_def listFilter_def emptyQuery_def truthy_def nearClause_def)

text \<open>
  C4, evaluated where it fails. The store holds a canonical issue (id 1) and a duplicate
  merged into it (id 2, \<open>mergedInto = 1\<close>). Both government listings return the duplicate:
  neither \<^verbatim>\<open>getAllIssuesFull\<close> nor the filter of \<^verbatim>\<open>getAllIssues\<close> looks at \<open>mergedInto\<close>.
\<close>

theorem duplicate_appears_in_listings:
  "mergedInto duplicateIssue = Some 1
   \<and> map issue_id (issues mergedStore) = [1, 2]
   \<and> map_sum id (map row_id) (getAllIssuesFull mergedStore (Some official3)) = Inr [2, 1]
   \<and> map_sum id (map issue_id \<circ> docs)
        (getAllIssues plainEngine mergedStore (Some official3) emptyQuery) = Inr [2, 1]"
  by (simp add: getAllIssuesFull_def getAllIssues_def isGovernment_def official3_def
      mergedStore_def duplicateIssue_def exampleIssue_def sortIssues_def sortKey_def toRow_def
      paginate_def rejected_def pageNumber_def pageSize_def listOptions_def listFilter_def
      emptyQuery_def matches_def holds_def holdsGiven_def truthy_def nearClause_def hydrate_def)

lemmas parseInt_defs =
  parseInt_def readSign_def readRadix_def isWhiteSpace_def isRadixDigit_def digitValue_def
  radixValue_def

text \<open>
  A query that the store rejects is answered 500: so is a place whose coordinates are no
  numbers, whatever the engine and the store.
\<close>

lemma rejected_query_fails:
  assumes "isGovernment requester" and "rejected e (listFilter q)"
  shows "getAllIssues e st requester q = Inl (ServerError ''Failed to fetch issues'')"
  using assms by (simp add: getAllIssues_def paginate_def)

lemma placeQuery_rejected: "rejected e (listFilter placeQuery)"
  by (simp add: rejected_def listFilter_def placeQuery_def emptyQuery_def truthy_def
      nearClause_def nth_opt_def Let_def parseFloat_def readSign_def isWhiteSpace_def
      isRadixDigit_def digitValue_def)

text \<open>
  C5 (as amended). A page or limit that is present without a leading integer (\<^verbatim>\<open>parseInt\<close>
  gives \<^verbatim>\<open>NaN\<close>, as for \<open>'abc'\<close>) behaves as the default: the request is answered as the
  same request without the parameter, for every requester, store and engine. For a
  government user and a query the store accepts, the listing is the page \<open>p\<close> of size \<open>l\<close>
  of the matching documents, where \<open>p\<close> is 1 and \<open>l\<close> is 10 when the parameter is absent,
  has no leading integer or has one below 1, and the parameter's leading integer
  otherwise: a value with a leading integer \<open>n \<ge> 1\<close> is used as \<open>n\<close>, numeric string or
  not.
\<close>

theorem listing_page_and_limit:
  "(\<forall>s. q_page q = Some s \<and> parseInt s = None \<longrightarrow>
        getAllIssues e st requester q = getAllIssues e st requester (q\<lparr>q_page := None\<rparr>))
   \<and> (\<forall>s. q_limit q = Some s \<and> parseInt s = None \<longrightarrow>
        getAllIssues e st requester q = getAllIssues e st requester (q\<lparr>q_limit := None\<rparr>))
   \<and> (isGovernment requester \<and> \<not> rejected e (listFilter q) \<longrightarrow>
        (\<exists>r. getAllIssues e st requester q = Inr r
           \<and> page r = (case q_page q of
                         None \<Rightarrow> 1
                       | Some s \<Rightarrow> (case parseInt s of
                                    None \<Rightarrow> 1
                                  | Some n \<Rightarrow> if 1 \<le> n then n else 1))
           \<and> limit r = (case q_limit q of
                          None \<Rightarrow> 10
                        | Some s \<Rightarrow> (case parseInt s of
                                     None \<Rightarrow> 10
                                   | Some n \<Rightarrow> if 1 \<le> n then n else 10))
           \<and> docs r = map hydrate (take (nat (limit r)) (drop (nat ((page r - 1) * limit r))
                        (sortIssues (opt_sortBy (listOptions q)) (opt_sortDir (listOptions q))
                           (filter (matches e (listFilter q)) (issues st)))))))"
proof (intro conjI allI impI)
  fix s
  assume "q_page q = Some s \<and> parseInt s = None"
  then show "getAllIssues e st requester q = getAllIssues e st requester (q\<lparr>q_page := None\<rparr>)"
    by (simp add: getAllIssues_def paginate_def listFilter_def listOptions_def pageNumber_def)
next
  fix s
  assume "q_limit q = Some s \<and> parseInt s = None"
  then show "getAllIssues e st requester q = getAllIssues e st requester (q\<lparr>q_limit := None\<rparr>)"
    by (simp add: getAllIssues_def paginate_def listFilter_def listOptions_def pageSize_def)
next
  assume a: "isGovernment requester \<and> \<not> rejected e (listFilter q)"
  let ?found = "sortIssues (opt_sortBy (listOptions q)) (opt_sortDir (listOptions q))
                  (filter (matches e (listFilter q)) (issues st))"
  let ?p = "pageNumber (opt_page (listOptions q))"
  let ?l = "pageSize (opt_limit (listOptions q))"
  let ?r = "\<lparr>docs = map hydrate (take (nat ?l) (drop (nat ((?p - 1) * ?l)) ?found)),
            totalDocs = length ?found, page = ?p,
            totalPages = (int (length ?found) + ?l - 1) div ?l, limit = ?l\<rparr>"
  have r: "getAllIssues e st requester q = Inr ?r"
    using a by (simp add: getAllIssues_def paginate_def Let_def)
  have p: "?p = (case q_page q of None \<Rightarrow> 1
                 | Some s \<Rightarrow> (case parseInt s of None \<Rightarrow> 1 | Some n \<Rightarrow> if 1 \<le> n then n else 1))"
    by (simp add: listOptions_def pageNumber_def split: option.splits)
  have l: "?l = (case q_limit q of None \<Rightarrow> 10
                 | Some s \<Rightarrow> (case parseInt s of None \<Rightarrow> 10 | Some n \<Rightarrow> if 1 \<le> n then n else 10))"
    by (simp add: listOptions_def pageSize_def split: option.splits)
  have "getAllIssues e st requester q = Inr ?r
      \<and> page ?r = ?p \<and> limit ?r = ?l
      \<and> docs ?r = map hydrate (take (nat (limit ?r)) (drop (nat ((page ?r - 1) * limit ?r)) ?found))"
    using r by simp
  with p l show "\<exists>r. getAllIssues e st requester q = Inr r
           \<and> page r = (case q_page q of
                         None \<Rightarrow> 1
                       | Some s \<Rightarrow> (case parseInt s of
                                    None \<Rightarrow> 1
                                  | Some n \<Rightarrow> if 1 \<le> n then n else 1))
           \<and> limit r = (case q_limit q of
                          None \<Rightarrow> 10
                        | Some s \<Rightarrow> (case parseInt s of
                                     None \<Rightarrow> 10
                                   | Some n \<Rightarrow> if 1 \<le> n then n else 10))
           \<and> docs r = map hydrate (take (nat (limit r)) (drop (nat ((page r - 1) * limit r))
                        (sortIssues (opt_sortBy (listOptions q)) (opt_sortDir (listOptions q))
                           (filter (matches e (listFilter q)) (issues st)))))"
    by (intro exI [of _ ?r]) simp
qed

lemma mergedStore_size: "length (issues mergedStore) = 2"
  by (simp add: mergedStore_def)

theorem listing_page_and_limit_witness:
  "q_page wordQuery = Some ''abc'' \<and> q_limit wordQuery = Some ''abc'' \<and> parseInt ''abc'' = None
   \<and> getAllIssues plainEngine mergedStore (Some official3) wordQuery
       = getAllIssues plainEngine mergedStore (Some official3) emptyQuery
   \<and> isGovernment (Some official3)
   \<and> \<not> rejected plainEngine (listFilter wordQuery)
   \<and> (\<exists>r. getAllIssues plainEngine mergedStore (Some official3) wordQuery = Inr r
          \<and> page r = 1 \<and> limit r = 10)
   \<and> \<not> rejected plainEngine (listFilter secondPageQuery)
   \<and> q_page secondPageQuery = Some ''2nd'' \<and> parseInt ''2nd'' = Some 2
   \<and> (\<exists>r. getAllIssues plainEngine mergedStore (Some official3) secondPageQuery = Inr r
          \<and> page r = 2 \<and> limit r = 10 \<and> docs r = [])"
proof -
  let ?halfQuery = "wordQuery\<lparr>q_page := None\<rparr>"
  have g: "isGovernment (Some official3)"
    by (simp add: isGovernment_def official3_def)
  have n: "parseInt ''abc'' = None" "parseInt ''2nd'' = Some 2"
    by (simp_all add: parseInt_defs)
  have w: "q_page wordQuery = Some ''abc''" "q_limit wordQuery = Some ''abc''"
    "q_limit ?halfQuery = Some ''abc''" "?halfQuery\<lparr>q_limit := None\<rparr> = emptyQuery"
    by (simp_all add: wordQuery_def emptyQuery_def)
  have s: "q_page secondPageQuery = Some ''2nd''" "q_limit secondPageQuery = None"
    by (simp_all add: secondPageQuery_def emptyQuery_def)
  have a: "\<not> rejected plainEngine (listFilter wordQuery)"
    by (simp add: rejected_def listFilter_def wordQuery_def emptyQuery_def truthy_def
        nearClause_def)
  have b: "\<not> rejected plainEngine (listFilter secondPageQuery)"
    by (simp add: rejected_def listFilter_def secondPageQuery_def emptyQuery_def truthy_def
        nearClause_def)
  from listing_page_and_limit [of wordQuery plainEngine mergedStore "Some official3"] w(1) n(1)
  have e1: "getAllIssues plainEngine mergedStore (Some official3) wordQuery
              = getAllIssues plainEngine mergedStore (Some official3) ?halfQuery"
    by blast
  from listing_page_and_limit [of ?halfQuery plainEngine mergedStore "Some official3"] w(3) n(1)
  have "getAllIssues plainEngine mergedStore (Some official3) ?halfQuery
              = getAllIssues plainEngine mergedStore (Some official3) (?halfQuery\<lparr>q_limit := None\<rparr>)"
    by blast
  with e1 w(4) have 0: "getAllIssues plainEngine mergedStore (Some official3) wordQuery
       = getAllIssues plainEngine mergedStore (Some official3) emptyQuery"
    by simp
  from listing_page_and_limit [of wordQuery plainEngine mergedStore "Some official3"] g a
  obtain r1 where r1: "getAllIssues plainEngine mergedStore (Some official3) wordQuery = Inr r1"
    "page r1 = (case q_page wordQuery of
                  None \<Rightarrow> 1
                | Some s \<Rightarrow> (case parseInt s of None \<Rightarrow> 1 | Some n \<Rightarrow> if 1 \<le> n then n else 1))"
    "limit r1 = (case q_limit wordQuery of
                   None \<Rightarrow> 10
                 | Some s \<Rightarrow> (case parseInt s of None \<Rightarrow> 10 | Some n \<Rightarrow> if 1 \<le> n then n else 10))"
    by blast
  from r1(2,3) have "page r1 = 1" "limit r1 = 10"
    by (simp_all add: w(1,2) n(1))
  with r1(1) have 1: "\<exists>r. getAllIssues plainEngine mergedStore (Some official3) wordQuery = Inr r
          \<and> page r = 1 \<and> limit r = 10"
    by blast
  from listing_page_and_limit [of secondPageQuery plainEngine mergedStore "Some official3"] g b
  obtain r where r0: "getAllIssues plainEngine mergedStore (Some official3) secondPageQuery = Inr r"
    "page r = (case q_page secondPageQuery of
                 None \<Rightarrow> 1
               | Some s \<Rightarrow> (case parseInt s of None \<Rightarrow> 1 | Some n \<Rightarrow> if 1 \<le> n then n else 1))"
    "limit r = (case q_limit secondPageQuery of
                  None \<Rightarrow> 10
                | Some s \<Rightarrow> (case parseInt s of None \<Rightarrow> 10 | Some n \<Rightarrow> if 1 \<le> n then n else 10))"
    "docs r = map hydrate (take (nat (limit r)) (drop (nat ((page r - 1) * limit r))
        (sortIssues (opt_sortBy (listOptions secondPageQuery)) (opt_sortDir (listOptions secondPageQuery))
           (filter (matches plainEngine (listFilter secondPageQuery)) (issues mergedStore)))))"
    by blast
  from r0(2,3) have pl: "page r = 2" "limit r = 10"
    by (simp_all add: s n(2))
  note r = r0(1) pl r0(4)
  have "length (sortIssues (opt_sortBy (listOptions secondPageQuery)) (opt_sortDir (listOptions secondPageQuery))
           (filter (matches plainEngine (listFilter secondPageQuery)) (issues mergedStore))) \<le> 2"
    using mergedStore_size
      length_filter_le [of "matches plainEngine (listFilter secondPageQuery)" "issues mergedStore"]
    by (simp add: sortIssues_def)
  with r(2,3,4) have "docs r = []"
    by simp
  with r(1,2,3) have 2: "\<exists>r. getAllIssues plainEngine mergedStore (Some official3) secondPageQuery = Inr r
          \<and> page r = 2 \<and> limit r = 10 \<and> docs r = []"
    by blast
  from w(1,2) n 0 g a 1 b s(1) 2 show ?thesis
    by blast
qed

text \<open>
  C5 as stated fails: a malformed \<open>page\<close> or \<open>limit\<close> that starts with digits is not
  replaced by the default. A limit of \<open>'1x'\<close> is read as 1, so the listing of two issues
  returns one document where the default returns both; a page of \<open>'2nd'\<close> is read as 2,
  so the listing is the empty second page where the default returns the first.
\<close>

theorem malformed_limit_counterexample:
  "q_limit limitQuery = Some ''1x'' \<and> q_page secondPageQuery = Some ''2nd''
   \<and> map_sum id limit (getAllIssues plainEngine mergedStore (Some official3) emptyQuery) = Inr 10
   \<and> map_sum id (map issue_id \<circ> docs)
        (getAllIssues plainEngine mergedStore (Some official3) emptyQuery) = Inr [2, 1]
   \<and> map_sum id limit (getAllIssues plainEngine mergedStore (Some official3) limitQuery) = Inr 1
   \<and> map_sum id (map issue_id \<circ> docs)
        (getAllIssues plainEngine mergedStore (Some official3) limitQuery) = Inr [2]
   \<and> map_sum id page (getAllIssues plainEngine mergedStore (Some official3) secondPageQuery) = Inr 2
   \<and> map_sum id (map issue_id \<circ> docs)
        (getAllIssues plainEngine mergedStore (Some official3) secondPageQuery) = Inr []"
  by (simp add: getAllIssues_def isGovernment_def official3_def limitQuery_def secondPageQuery_def
      mergedStore_def duplicateIssue_def exampleIssue_def sortIssues_def sortKey_def
      paginate_def rejected_def pageNumber_def pageSize_def listOptions_def listFilter_def
      emptyQuery_def matches_def holds_def holdsGiven_def truthy_def nearClause_def parseInt_defs
      hydrate_def)

section \<open>Properties of reporting\<close>

lemma dropWhile_prefix_fixed:
  assumes "ys @ zs = dropWhile P xs"
  shows "dropWhile P ys = ys"
proof (cases ys)
  case Nil
  then show ?thesis by simp
next
  case (Cons y ys')
  with assms have "dropWhile P xs = y # (ys' @ zs)" by simp
  then have "\<not> P y"
    by (metis hd_dropWhile list.sel(1) list.distinct(1))
  with Cons show ?thesis by simp
qed

lemma trim_trim: "trim (trim s) = trim s"
proof -
  define u where "u = dropWhile isWhiteSpace s"
  define v where "v = dropWhile isWhiteSpace (rev u)"
  have t: "trim s = rev v"
    by (simp add: trim_def u_def v_def)
  have "rev (takeWhile isWhiteSpace (rev u) @ v) = u"
    unfolding v_def by (simp only: takeWhile_dropWhile_id rev_rev_ident)
  then have "rev v @ rev (takeWhile isWhiteSpace (rev u)) = dropWhile isWhiteSpace s"
    by (simp add: u_def)
  then have 1: "dropWhile isWhiteSpace (rev v) = rev v"
    by (rule dropWhile_prefix_fixed)
  have 2: "dropWhile isWhiteSpace v = v"
    by (simp add: v_def)
  have "trim (rev v) = rev v"
    by (simp add: trim_def 1 2)
  with t show ?thesis by simp
qed

lemma collectImages_nonempty: "[] \<notin> set (collectImages b)"
proof -
  have "[] \<notin> set (map stringOf (filter isHttpUrl raw))" for raw
    by (auto simp: isHttpUrl_def stringOf_def split: jsval.splits)
  then show ?thesis
    by (auto simp: collectImages_def split: option.splits image_input.splits)
qed

lemma category_not_inherited: "c \<in> set categories \<Longrightarrow> c \<notin> set objectPrototypeKeys"
  by (auto simp: categories_def objectPrototypeKeys_def)

lemma priority_not_inherited: "p \<in> set priorities \<Longrightarrow> p \<notin> set objectPrototypeKeys"
  by (auto simp: priorities_def objectPrototypeKeys_def)

lemma estimate_defined:
  assumes "c \<in> set categories" and "p \<in> set priorities"
  shows "calculateEstimatedResolutionTime c p \<noteq> None"
  using category_not_inherited [OF assms(1)] priority_not_inherited [OF assms(2)]
  by (simp add: calculateEstimatedResolutionTime_def baseHours_orDefault
      priorityMultiplier_orDefault)

lemma validated_fields:
  assumes "validateIssue b = []"
  shows "3 \<le> length (trim (b_title b))" and "10 \<le> length (trim (b_description b))"
    and "b_category b \<in> set categories"
    and "(case b_priority b of None \<Rightarrow> ''low'' | Some p \<Rightarrow> p) \<in> set priorities"
proof -
  from assms show "3 \<le> length (trim (b_title b))"
    by (simp add: validateIssue_def split: if_splits)
  from assms show "10 \<le> length (trim (b_description b))"
    by (simp add: validateIssue_def split: if_splits)
  from assms show "b_category b \<in> set categories"
    by (simp add: validateIssue_def split: if_splits)
  from assms show "(case b_priority b of None \<Rightarrow> ''low'' | Some p \<Rightarrow> p) \<in> set priorities"
    by (cases "b_priority b") (simp_all add: validateIssue_def priorities_def split: if_splits)
qed

lemma schemaErrors_newIssue:
  assumes "validateIssue b = []" and "coords \<noteq> []" and "addr \<noteq> []"
  shows "schemaErrors (newIssue now fresh uid b (collectImages b) ld coords addr) = []"
proof -
  note v = validated_fields [OF assms(1)]
  have t: "trim (b_title b) \<noteq> []" and d: "trim (b_description b) \<noteq> []"
    using v(1,2) by auto
  have e: "calculateEstimatedResolutionTime (b_category b)
             (case b_priority b of None \<Rightarrow> ''low'' | Some p \<Rightarrow> p) \<noteq> None"
    by (rule estimate_defined [OF v(3,4)])
  show ?thesis
    using t d e v(3,4) assms(2,3) collectImages_nonempty [of b]
    by (simp add: schemaErrors_def newIssue_def Let_def inEnum_def statuses_def
        notificationTypes_def)
qed

lemma createIssue_accepts:
  assumes "validateIssue b = []" and "parsedLocation b = Inr (Some ld)"
    and "ld_coordinates ld = Some coords" and "length coords = 2"
  shows "createIssue now st (Some u) b =
           (let addr = (case ld_address ld of None \<Rightarrow> ''Address not specified''
                        | Some a \<Rightarrow> if a = [] then ''Address not specified'' else a);
                d = preSave (newIssue now (freshId st) (user_id u) b (collectImages b) ld coords addr)
            in Inr (insertIssue st d, d))"
proof -
  let ?addr = "case ld_address ld of None \<Rightarrow> ''Address not specified''
                 | Some a \<Rightarrow> if a = [] then ''Address not specified'' else a"
  have a: "?addr \<noteq> []"
    by (simp split: option.splits)
  have c: "coords \<noteq> []"
    using assms(4) by auto
  have "schemaErrors (newIssue now (freshId st) (user_id u) b (collectImages b) ld coords ?addr) = []"
    by (rule schemaErrors_newIssue [OF assms(1) c a])
  with assms show ?thesis
    by (simp add: createIssue_def Let_def)
qed

lemma createIssue_result:
  assumes "createIssue now st requester b = Inr (st', d)"
  shows "st' = insertIssue st d" and "issue_id d = freshId st" and "mergedInto d = None"
    and "duplicates d = []" and "reporters d = [reportedBy d]"
    and "requester = Some u \<Longrightarrow> reportedBy d = user_id u"
    and "votes d = 0" and "voters d = []" and "status d = Some ''pending''"
    and "map entry_status (statusHistory d) = [Some ''pending'']"
    and "createdAt d = now" and "category d = b_category b"
    and "length (coordinates (location d)) = 2"
    and "validateIssue b = []"
    and "priority d = (case b_priority b of None \<Rightarrow> ''low'' | Some p \<Rightarrow> p)"
    and "estimatedResolutionTime d = calculateEstimatedResolutionTime (category d) (priority d)"
proof -
  from assms obtain u' ld coords addr where
    d: "d = preSave (newIssue now (freshId st) (user_id u') b (collectImages b) ld coords addr)"
    and r: "requester = Some u'" and s: "st' = insertIssue st d" and l: "length coords = 2"
    and v: "validateIssue b = []"
    by (auto simp: createIssue_def Let_def split: if_splits sum.splits option.splits)
  show "st' = insertIssue st d" by (rule s)
  show "issue_id d = freshId st" by (simp add: d preSave_def newIssue_def Let_def)
  show "mergedInto d = None" by (simp add: d preSave_def newIssue_def Let_def)
  show "duplicates d = []" by (simp add: d preSave_def newIssue_def Let_def)
  show "reporters d = [reportedBy d]" by (simp add: d preSave_def newIssue_def Let_def)
  show "requester = Some u \<Longrightarrow> reportedBy d = user_id u"
    using r by (simp add: d preSave_def newIssue_def Let_def)
  show "votes d = 0" by (simp add: d preSave_def newIssue_def Let_def)
  show "voters d = []" by (simp add: d preSave_def newIssue_def Let_def)
  show "status d = Some ''pending''" by (simp add: d preSave_def newIssue_def Let_def)
  show "map entry_status (statusHistory d) = [Some ''pending'']"
    by (simp add: d preSave_def newIssue_def Let_def)
  show "createdAt d = now" by (simp add: d preSave_def newIssue_def Let_def)
  show "category d = b_category b" by (simp add: d preSave_def newIssue_def Let_def)
  show "length (coordinates (location d)) = 2"
    using l by (simp add: d preSave_def newIssue_def Let_def)
  show "validateIssue b = []" by (rule v)
  show "priority d = (case b_priority b of None \<Rightarrow> ''low'' | Some p \<Rightarrow> p)"
    by (simp add: d preSave_def newIssue_def Let_def)
  show "estimatedResolutionTime d = calculateEstimatedResolutionTime (category d) (priority d)"
    by (simp add: d preSave_def newIssue_def Let_def)
qed

lemma created_status: "createIssue now st requester b = Inr (st', d) \<Longrightarrow> hydrate d = d"
  by (rule hydrate_given) (simp add: createIssue_result(9))

lemma find_snoc:
  "find P (xs @ [d]) =
     (case find P xs of Some x \<Rightarrow> Some x | None \<Rightarrow> if P d then Some d else None)"
  by (induction xs) simp_all

lemma below_freshId:
  assumes "d \<in> set (issues st)"
  shows "issue_id d < freshId st"
proof -
  have "d \<in> set xs \<Longrightarrow> issue_id d < foldr (\<lambda>d n. max (Suc (issue_id d)) n) xs 0" for xs
    by (induction xs) auto
  with assms show ?thesis
    by (simp add: freshId_def)
qed

lemma find_fresh: "find (\<lambda>x. issue_id x = freshId st) (issues st) = None"
  using below_freshId [of _ st] by (fastforce simp: find_None_iff)

lemma findById_insertIssue:
  assumes "issue_id d = freshId st"
  shows "findById (insertIssue st d) i = (if i = freshId st then Some (hydrate d) else findById st i)"
proof (cases "i = freshId st")
  case True
  with assms find_fresh [of st] show ?thesis
    by (simp add: insertIssue_def findById_def find_snoc)
next
  case False
  with assms show ?thesis
    by (simp add: insertIssue_def findById_def find_snoc split: option.splits)
qed

lemma sampleBody_valid: "validateIssue sampleBody = []"
  by (simp add: validateIssue_def sampleBody_def trim_def isWhiteSpace_def categories_def)

lemma sampleBody_location: "parsedLocation sampleBody = Inr (Some sampleLocation)"
  by (simp add: parsedLocation_def readLocation_def deriveCoordinates_def sampleBody_def
      sampleLocation_def)

subsection \<open>The estimate stored at creation\<close>

text \<open>
  C8. The helper returns the rounded product of the category's base hours (48 for a
  category the table lacks) and the priority's multiplier, for every category and
  priority it is called with. \<^verbatim>\<open>createIssue\<close>, its only caller, passes a category and a
  priority that passed the route's validators, and every issue it creates stores the
  formula's value as \<open>estimatedResolutionTime\<close>; beyond those, the equation holds for all
  strings but the names of the members of \<^verbatim>\<open>Object.prototype\<close>. In particular
  \<open>('Public Safety', 'urgent')\<close> gives 3 and \<open>('Roads & Infrastructure', 'low')\<close> gives 108.
\<close>

theorem estimate_matches_spec:
  "(createIssue now st requester b = Inr (st', d) \<longrightarrow>
      category d \<in> set categories \<and> priority d \<in> set priorities
      \<and> calculateEstimatedResolutionTime (category d) (priority d)
          = Some (estimateResolutionHours (category d) (priority d))
      \<and> estimatedResolutionTime d = Some (estimateResolutionHours (category d) (priority d)))
   \<and> (c \<notin> set objectPrototypeKeys \<longrightarrow> p \<notin> set objectPrototypeKeys \<longrightarrow>
      calculateEstimatedResolutionTime c p = Some (estimateResolutionHours c p))
   \<and> calculateEstimatedResolutionTime ''Public Safety'' ''urgent'' = Some 3
   \<and> calculateEstimatedResolutionTime ''Roads & Infrastructure'' ''low'' = Some 108"
proof -
  have any: "calculateEstimatedResolutionTime x y = Some (estimateResolutionHours x y)"
    if "x \<notin> set objectPrototypeKeys" "y \<notin> set objectPrototypeKeys" for x y
    using that
    by (simp add: calculateEstimatedResolutionTime_def estimateResolutionHours_def
        baseHours_orDefault priorityMultiplier_orDefault)
  have created: "category d \<in> set categories \<and> priority d \<in> set priorities
      \<and> calculateEstimatedResolutionTime (category d) (priority d)
          = Some (estimateResolutionHours (category d) (priority d))
      \<and> estimatedResolutionTime d = Some (estimateResolutionHours (category d) (priority d))"
    if r: "createIssue now st requester b = Inr (st', d)"
  proof -
    note f = createIssue_result [OF r]
    note v = validated_fields [OF f(14)]
    have 1: "category d \<in> set categories" "priority d \<in> set priorities"
      using v(3,4) by (simp_all add: f(12,15))
    have "calculateEstimatedResolutionTime (category d) (priority d)
            = Some (estimateResolutionHours (category d) (priority d))"
      by (rule any [OF category_not_inherited [OF 1(1)] priority_not_inherited [OF 1(2)]])
    with 1 f(16) show ?thesis
      by simp
  qed
  have 3: "calculateEstimatedResolutionTime ''Public Safety'' ''urgent'' = Some 3"
    by (simp add: calculateEstimatedResolutionTime_def orDefault_def getProperty_def
        baseHours_def priorityMultiplier_def Math_round_def)
  have 108: "calculateEstimatedResolutionTime ''Roads & Infrastructure'' ''low'' = Some 108"
    by (simp add: calculateEstimatedResolutionTime_def orDefault_def getProperty_def
        baseHours_def priorityMultiplier_def Math_round_def)
  from any created 3 108 show ?thesis
    by blast
qed

theorem estimate_matches_spec_witness:
  "''Potholes'' \<notin> set objectPrototypeKeys \<and> ''high'' \<notin> set objectPrototypeKeys
   \<and> calculateEstimatedResolutionTime ''Potholes'' ''high'' = Some 24
   \<and> estimateResolutionHours ''Potholes'' ''high'' = 24
   \<and> (\<exists>st' d. createIssue 1000 emptyStore (Some citizen9) sampleBody = Inr (st', d)
         \<and> category d = ''Roads & Infrastructure'' \<and> priority d = ''low''
         \<and> estimatedResolutionTime d = Some 108)"
proof -
  have k: "''Potholes'' \<notin> set objectPrototypeKeys" "''high'' \<notin> set objectPrototypeKeys"
    by (simp_all add: objectPrototypeKeys_def)
  have e: "estimateResolutionHours ''Potholes'' ''high'' = 24"
    "estimateResolutionHours ''Roads & Infrastructure'' ''low'' = 108"
    by (simp_all add: estimateResolutionHours_def baseHoursForCategory_def baseHours_def
        priorityMultiplierFor_def Math_round_def)
  have c: "ld_coordinates sampleLocation = Some [77, 13]"
    by (simp add: sampleLocation_def)
  have l: "length [77, 13 :: real] = 2" by simp
  obtain st' d where 1: "createIssue 1000 emptyStore (Some citizen9) sampleBody = Inr (st', d)"
    by (simp add: createIssue_accepts [OF sampleBody_valid sampleBody_location c l] Let_def)
  note f = createIssue_result [OF 1]
  have cp: "category d = ''Roads & Infrastructure''" "priority d = ''low''"
    by (simp_all add: f(12,15) sampleBody_def)
  from estimate_matches_spec [of 1000 emptyStore "Some citizen9" sampleBody st' d
      "''Potholes''" "''high''"] 1 k e cp
  show ?thesis
    by simp
qed

text \<open>
  The table lookup of the helper also finds the members an object literal inherits. For
  such a name, which no validated request carries as its category, the helper's product
  is \<^verbatim>\<open>NaN\<close> where the formula gives 72.
\<close>

lemma inherited_name_has_no_estimate:
  "''toString'' \<notin> set categories
   \<and> calculateEstimatedResolutionTime ''toString'' ''low'' = None
   \<and> estimateResolutionHours ''toString'' ''low'' = 72"
  by (simp add: calculateEstimatedResolutionTime_def orDefault_def getProperty_def
      baseHours_def objectPrototypeKeys_def estimateResolutionHours_def
      baseHoursForCategory_def priorityMultiplierFor_def Math_round_def categories_def)

subsection \<open>Accepted reports\<close>

text \<open>
  C10. A validated report from an authenticated user whose parsed location has two
  coordinates and no address is not rejected: the issue is created, stored, and carries
  the address \<open>'Address not specified'\<close>.
\<close>

theorem missing_address_gets_placeholder:
  assumes "validateIssue b = []" and "parsedLocation b = Inr (Some ld)"
    and "ld_coordinates ld = Some [lng, lat]" and "\<not> hasAddress ld"
  shows "\<exists>st' d. createIssue now st (Some u) b = Inr (st', d)
               \<and> address (location d) = ''Address not specified''
               \<and> coordinates (location d) = [lng, lat]
               \<and> issues st' = issues st @ [d]"
proof -
  have a: "(case ld_address ld of None \<Rightarrow> ''Address not specified''
            | Some a \<Rightarrow> if a = [] then ''Address not specified'' else a) = ''Address not specified''"
    using assms(4) by (simp add: hasAddress_def split: option.splits)
  have l: "length [lng, lat] = 2" by simp
  show ?thesis
    unfolding createIssue_accepts [OF assms(1,2,3) l] a
    by (simp add: insertIssue_def preSave_def newIssue_def Let_def)
qed

theorem missing_address_gets_placeholder_witness:
  "validateIssue sampleBody = [] \<and> parsedLocation sampleBody = Inr (Some sampleLocation)
   \<and> ld_coordinates sampleLocation = Some [77, 13] \<and> \<not> hasAddress sampleLocation
   \<and> (\<exists>st' d. createIssue 1000 emptyStore (Some citizen9) sampleBody = Inr (st', d)
               \<and> address (location d) = ''Address not specified''
               \<and> coordinates (location d) = [77, 13]
               \<and> issues st' = [d])"
proof -
  have c: "ld_coordinates sampleLocation = Some [77, 13]"
    by (simp add: sampleLocation_def)
  have h: "\<not> hasAddress sampleLocation"
    by (simp add: hasAddress_def sampleLocation_def)
  have e: "issues emptyStore = []"
    by (simp add: emptyStore_def)
  from missing_address_gets_placeholder [OF sampleBody_valid sampleBody_location c h,
      of 1000 emptyStore citizen9]
  show ?thesis
    using sampleBody_valid sampleBody_location c h e by simp
qed

text \<open>
  C1 (as amended). Two reports accepted one after the other, whatever their coordinates
  and categories, give two canonical issues: the second gets a new id, is merged into
  nothing, has no duplicates and its reporter as only reporter; the first is stored
  unchanged beside it.
\<close>

theorem each_report_creates_new_issue:
  assumes "createIssue t1 st r1 b1 = Inr (st1, d1)"
    and "createIssue t2 st1 r2 b2 = Inr (st2, d2)"
  shows "issue_id d2 \<noteq> issue_id d1
       \<and> mergedInto d2 = None \<and> duplicates d2 = [] \<and> reporters d2 = [reportedBy d2]
       \<and> findById st2 (issue_id d1) = Some d1
       \<and> findById st2 (issue_id d2) = Some d2
       \<and> issues st2 = issues st @ [d1, d2]"
proof -
  note f = createIssue_result [OF assms(1)]
  note g = createIssue_result [OF assms(2)]
  have "d1 \<in> set (issues st1)"
    by (simp add: f(1) insertIssue_def)
  then have "issue_id d1 < freshId st1"
    by (rule below_freshId)
  then have ids: "issue_id d2 \<noteq> issue_id d1"
    by (simp add: g(2))
  have l1: "findById st1 (issue_id d1) = Some d1"
    unfolding f(1) by (simp add: findById_insertIssue [OF f(2)] f(2) created_status [OF assms(1)])
  have l2: "findById st2 (issue_id d2) = Some d2"
    unfolding g(1) by (simp add: findById_insertIssue [OF g(2)] g(2) created_status [OF assms(2)])
  have l3: "findById st2 (issue_id d1) = Some d1"
    unfolding g(1) using l1 ids by (simp add: findById_insertIssue [OF g(2)] g(2))
  have all: "issues st2 = issues st @ [d1, d2]"
    by (simp add: g(1) f(1) insertIssue_def)
  from ids g(3,4,5) l3 l2 all show ?thesis by simp
qed

theorem each_report_creates_new_issue_witness:
  "\<exists>st1 d1 st2 d2.
        createIssue 1000 emptyStore (Some citizen9) sampleBody = Inr (st1, d1)
      \<and> createIssue 2000 st1 (Some citizen9) sampleBody = Inr (st2, d2)
      \<and> issue_id d2 \<noteq> issue_id d1 \<and> mergedInto d2 = None
      \<and> findById st2 (issue_id d1) = Some d1 \<and> issues st2 = [d1, d2]"
proof -
  have c: "ld_coordinates sampleLocation = Some [77, 13]"
    by (simp add: sampleLocation_def)
  have l: "length [77, 13 :: real] = 2" by simp
  obtain st1 d1 where 1: "createIssue 1000 emptyStore (Some citizen9) sampleBody = Inr (st1, d1)"
    by (simp add: createIssue_accepts [OF sampleBody_valid sampleBody_location c l] Let_def)
  obtain st2 d2 where 2: "createIssue 2000 st1 (Some citizen9) sampleBody = Inr (st2, d2)"
    by (simp add: createIssue_accepts [OF sampleBody_valid sampleBody_location c l] Let_def)
  have e: "issues emptyStore = []"
    by (simp add: emptyStore_def)
  from each_report_creates_new_issue [OF 1 2] 1 2 e show ?thesis
    by auto
qed

text \<open>
  C1 as stated fails: of two identical reports (same coordinates, same category) submitted
  in sequence, the second does not resolve to the issue of the first. It gets an issue of
  its own, with id 1 beside the first one's id 0, and nothing is recorded as a duplicate.
\<close>

theorem same_place_same_category_counterexample:
  "map_sum id (coordinates \<circ> location \<circ> snd) secondReport
     = map_sum id (coordinates \<circ> location \<circ> snd) firstReport
   \<and> map_sum id (category \<circ> snd) secondReport = map_sum id (category \<circ> snd) firstReport
   \<and> map_sum id (issue_id \<circ> snd) firstReport = Inr 0
   \<and> map_sum id (issue_id \<circ> snd) secondReport = Inr 1
   \<and> map_sum id (mergedInto \<circ> snd) secondReport = Inr None
   \<and> map_sum id (map issue_id \<circ> issues \<circ> fst) secondReport = Inr [0, 1]
   \<and> map_sum id (map duplicates \<circ> issues \<circ> fst) secondReport = Inr [[], []]"
proof -
  have c: "ld_coordinates sampleLocation = Some [77, 13]"
    by (simp add: sampleLocation_def)
  have l: "length [77, 13 :: real] = 2" by simp
  note acc = createIssue_accepts [OF sampleBody_valid sampleBody_location c l]
  define addr where "addr = (case ld_address sampleLocation of None \<Rightarrow> ''Address not specified''
                        | Some a \<Rightarrow> if a = [] then ''Address not specified'' else a)"
  define d1 where "d1 = preSave (newIssue 1000 (freshId emptyStore) (user_id citizen9) sampleBody
                          (collectImages sampleBody) sampleLocation [77, 13] addr)"
  define st1 where "st1 = insertIssue emptyStore d1"
  define d2 where "d2 = preSave (newIssue 2000 (freshId st1) (user_id citizen9) sampleBody
                          (collectImages sampleBody) sampleLocation [77, 13] addr)"
  define st2 where "st2 = insertIssue st1 d2"
  have 1: "firstReport = Inr (st1, d1)"
    unfolding firstReport_def acc by (simp only: Let_def d1_def st1_def addr_def)
  have s: "storeOf emptyStore firstReport = st1"
    by (simp add: 1 storeOf_def)
  have 2: "secondReport = Inr (st2, d2)"
    unfolding secondReport_def s acc by (simp only: Let_def d2_def st2_def addr_def)
  have i1: "issue_id d1 = 0"
    by (simp add: d1_def preSave_def newIssue_def Let_def freshId_def emptyStore_def)
  have n: "freshId st1 = 1"
    by (simp add: st1_def insertIssue_def emptyStore_def freshId_def i1)
  have i2: "issue_id d2 = 1"
    by (simp add: d2_def preSave_def newIssue_def Let_def n)
  have f: "coordinates (location d2) = coordinates (location d1)" "category d2 = category d1"
    "mergedInto d2 = None" "duplicates d1 = []" "duplicates d2 = []"
    by (simp_all add: d1_def d2_def preSave_def newIssue_def Let_def)
  have i: "issues st2 = [d1, d2]"
    by (simp add: st2_def st1_def insertIssue_def emptyStore_def)
  show ?thesis
    by (simp add: 1 2 f i i1 i2)
qed

section \<open>Properties of reading one issue\<close>

lemma markAllRead_frame:
  "markAllRead d\<lparr>notifications := notifications d\<rparr> = d" "issue_id (markAllRead d) = issue_id d"
  "status (markAllRead d) = status d"
  by (simp_all add: markAllRead_def)





section \<open>Properties of assignment and status updates\<close>

lemma resolutionTimeHours_div:
  "resolutionTimeHours c n = (n - c + 1800000) div 3600000"
proof -
  have "real_of_int (n - c) / (1000 * 60 * 60) + 1 / 2
          = real_of_int (n - c + 1800000) / real_of_int 3600000"
    by simp
  then show ?thesis
    unfolding resolutionTimeHours_def Math_round_def
    by (simp only: floor_divide_of_int_eq)
qed

lemma Math_round_nearest: "\<bar>real_of_int (Math_round x) - x\<bar> \<le> 1 / 2"
proof -
  have "real_of_int \<lfloor>x + 1 / 2\<rfloor> \<le> x + 1 / 2" "x + 1 / 2 < real_of_int \<lfloor>x + 1 / 2\<rfloor> + 1"
    by linarith+
  then show ?thesis
    unfolding Math_round_def by linarith
qed

lemma saveChecked_ok:
  assumes "inEnum statuses (status new)"
    and "statusHistory new = statusHistory old @ [e]" and "inEnum statuses (entry_status e)"
  shows "saveChecked msg now st old new = Inr (save now st old new, stamp now old new)"
  using assms by (simp add: saveChecked_def)

lemma saveChecked_result:
  assumes "saveChecked msg now st old new = Inr (st', d')"
  shows "st' = save now st old new" and "d' = stamp now old new"
  using assms by (auto simp: saveChecked_def split: if_splits)

lemma statusUpdated_facts:
  "issue_id (statusUpdated now uid b d) = issue_id d"
  "status (statusUpdated now uid b d) = sb_status b"
  "\<exists>e. statusHistory (statusUpdated now uid b d) = statusHistory d @ [e] \<and> entry_status e = sb_status b"
  "createdAt (statusUpdated now uid b d) = createdAt d"
  by (simp_all add: statusUpdated_def Let_def)

lemma statusUpdated_changes: "statusUpdated now uid b d \<noteq> d"
proof
  assume eq: "statusUpdated now uid b d = d"
  obtain e where "statusHistory (statusUpdated now uid b d) = statusHistory d @ [e]"
    using statusUpdated_facts(3) by blast
  with eq show False by simp
qed

lemma statusUpdated_resolved:
  assumes "sb_status b = Some ''resolved''"
  shows "actualResolutionTime (statusUpdated now uid b d) = Some (resolutionTimeHours (createdAt d) now)"
    and "map_option resolvedBy (resolutionDetails (statusUpdated now uid b d)) = Some uid"
    and "map_option resolutionDate (resolutionDetails (statusUpdated now uid b d)) = Some now"
  using assms by (simp_all add: statusUpdated_def Let_def)

lemma assigned_facts:
  "issue_id (assigned now uid b d) = issue_id d"
  "status (assigned now uid b d) = Some ''assigned''"
  "\<exists>e. statusHistory (assigned now uid b d) = statusHistory d @ [e]
       \<and> entry_status e = Some ''assigned''"
  by (simp_all add: assigned_def)

lemma historyConsistent_statusUpdated: "historyConsistent (statusUpdated now uid b d)"
  using statusUpdated_facts(2,3) [of now uid b d] by (auto simp: historyConsistent_def)

lemma historyConsistent_assigned: "historyConsistent (assigned now uid b d)"
  using assigned_facts(2,3) [of now uid b d] by (auto simp: historyConsistent_def)

text \<open>
  C7. When a government user sets an existing issue to \<open>'resolved'\<close>, at a time not before
  the issue's creation, the update succeeds and stores \<open>actualResolutionTime\<close> as a
  non-negative integer, the number of hours between creation and the update rounded to
  the nearest integer, and \<open>resolutionDetails.resolvedBy\<close> as the acting user.
\<close>

theorem resolving_records_time_and_resolver:
  assumes "role u = ''government''" and "findById st i = Some d"
    and "createdAt d \<le> now" and "sb_status b = Some ''resolved''"
  shows "\<exists>st' d' h. updateIssueStatus now st (Some u) i b = Inr (st', d')
           \<and> findById st' i = Some d'
           \<and> status d' = Some ''resolved''
           \<and> actualResolutionTime d' = Some h
           \<and> 0 \<le> h
           \<and> h = Math_round (real_of_int (now - createdAt d) / 3600000)
           \<and> h = (now - createdAt d + 1800000) div 3600000
           \<and> \<bar>real_of_int h - real_of_int (now - createdAt d) / 3600000\<bar> \<le> 1 / 2
           \<and> map_option resolvedBy (resolutionDetails d') = Some (user_id u)"
proof -
  let ?new = "statusUpdated now (user_id u) b d"
  let ?d' = "?new\<lparr>updatedAt := now\<rparr>"
  let ?h = "resolutionTimeHours (createdAt d) now"
  have id: "issue_id d = i"
    by (rule findById_id [OF assms(2)])
  obtain e where e: "statusHistory ?new = statusHistory d @ [e]" "entry_status e = sb_status b"
    using statusUpdated_facts(3) by blast
  have ok: "inEnum statuses (sb_status b)"
    by (simp add: assms(4) inEnum_def statuses_def)
  have st: "stamp now d ?new = ?d'"
    by (simp add: stamp_def statusUpdated_changes)
  have r: "updateIssueStatus now st (Some u) i b = Inr (save now st d ?new, ?d')"
    using assms(1,2) saveChecked_ok [of ?new d e _ now st] e ok
    by (simp add: updateIssueStatus_def statusUpdated_facts(2) st)
  have f: "findById (save now st d ?new) i = Some ?d'"
    using findById_saved [OF assms(2), of ?new now] id
    by (simp add: statusUpdated_facts(1,2) assms(4) st)
  have h0: "0 \<le> ?h"
    using assms(3) by (simp add: resolutionTimeHours_div pos_imp_zdiv_nonneg_iff)
  have h1: "?h = Math_round (real_of_int (now - createdAt d) / 3600000)"
    by (simp add: resolutionTimeHours_def)
  have h2: "\<bar>real_of_int ?h - real_of_int (now - createdAt d) / 3600000\<bar> \<le> 1 / 2"
    unfolding h1 by (rule Math_round_nearest)
  have a: "actualResolutionTime ?d' = Some ?h"
    "map_option resolvedBy (resolutionDetails ?d') = Some (user_id u)"
    using statusUpdated_resolved(1,2) [OF assms(4), of now "user_id u" d] by simp_all
  have s: "status ?d' = Some ''resolved''"
    by (simp add: statusUpdated_facts(2) assms(4))
  from r f s a h0 h1 h2 resolutionTimeHours_div [of "createdAt d" now] show ?thesis
    by blast
qed

theorem resolving_records_time_and_resolver_witness:
  "role official3 = ''government'' \<and> findById exampleStore 1 = Some exampleIssue
   \<and> createdAt exampleIssue \<le> 19801000
   \<and> (\<exists>st' d'. updateIssueStatus 19801000 exampleStore (Some official3) 1
                  \<lparr>sb_status = Some ''resolved'', sb_comment = None, sb_resolutionDetails = None\<rparr>
                = Inr (st', d')
         \<and> findById st' 1 = Some d'
         \<and> status d' = Some ''resolved''
         \<and> actualResolutionTime d' = Some 6
         \<and> map_option resolvedBy (resolutionDetails d') = Some 3)"
proof -
  let ?b = "\<lparr>sb_status = Some ''resolved'', sb_comment = None, sb_resolutionDetails = None\<rparr>"
  have g: "role official3 = ''government''"
    by (simp add: official3_def)
  have h: "findById exampleStore 1 = Some exampleIssue"
    by (simp add: findById_def hydrate_def exampleStore_def exampleIssue_def)
  have c: "createdAt exampleIssue \<le> 19801000"
    by (simp add: exampleIssue_def)
  have s: "sb_status ?b = Some ''resolved''"
    by simp
  have v: "(19801000 - createdAt exampleIssue + 1800000) div 3600000 = 6" "user_id official3 = 3"
    by (simp_all add: exampleIssue_def official3_def)
  from resolving_records_time_and_resolver [OF g h c s] v
  have "\<exists>st' d'. updateIssueStatus 19801000 exampleStore (Some official3) 1 ?b = Inr (st', d')
         \<and> findById st' 1 = Some d'
         \<and> status d' = Some ''resolved''
         \<and> actualResolutionTime d' = Some 6
         \<and> map_option resolvedBy (resolutionDetails d') = Some 3"
    by (metis (no_types, lifting))
  with g h c show ?thesis by blast
qed

lemma assigned_changes: "assigned now uid b d \<noteq> d"
proof
  assume eq: "assigned now uid b d = d"
  obtain e where "statusHistory (assigned now uid b d) = statusHistory d @ [e]"
    using assigned_facts(3) by blast
  with eq show False by simp
qed

lemma assignIssue_found:
  assumes "role u = ''government''" and "findById st i = Some d"
  shows "assignIssue now st (Some u) i b =
           Inr (save now st d (assigned now (user_id u) b d),
                (assigned now (user_id u) b d)\<lparr>updatedAt := now\<rparr>)"
proof -
  let ?new = "assigned now (user_id u) b d"
  obtain e where e: "statusHistory ?new = statusHistory d @ [e]" "entry_status e = Some ''assigned''"
    using assigned_facts(3) by blast
  have "saveChecked ''Failed to assign issue'' now st d ?new
          = Inr (save now st d ?new, stamp now d ?new)"
    by (rule saveChecked_ok [OF _ e(1)]) (simp_all add: assigned_facts(2) e(2) inEnum_def statuses_def)
  with assms show ?thesis
    by (simp add: assignIssue_def stamp_def assigned_changes)
qed

lemma updateIssueStatus_found:
  assumes "role u = ''government''" and "findById st i = Some d"
    and "inEnum statuses (sb_status b)"
  shows "updateIssueStatus now st (Some u) i b =
           Inr (save now st d (statusUpdated now (user_id u) b d),
                (statusUpdated now (user_id u) b d)\<lparr>updatedAt := now\<rparr>)"
proof -
  let ?new = "statusUpdated now (user_id u) b d"
  obtain e where e: "statusHistory ?new = statusHistory d @ [e]" "entry_status e = sb_status b"
    using statusUpdated_facts(3) by blast
  have "saveChecked ''Failed to update issue status'' now st d ?new
          = Inr (save now st d ?new, stamp now d ?new)"
    by (rule saveChecked_ok [OF _ e(1)]) (simp_all add: statusUpdated_facts(2) e(2) assms(3))
  with assms show ?thesis
    by (simp add: updateIssueStatus_def stamp_def statusUpdated_changes)
qed

text \<open>
  A status update whose body has no \<open>status\<close> is accepted: the handler does not consult
  the validation result, and the schema accepts a status that is \<^verbatim>\<open>undefined\<close>. The
  stored issue then has no status, so it is read back with the default \<open>'pending'\<close>, after
  a history entry that has no status either.
\<close>

lemma statusless_update_accepted:
  assumes "role u = ''government''" and "findById st i = Some d" and "sb_status b = None"
  shows "\<exists>st' d' d''. updateIssueStatus now st (Some u) i b = Inr (st', d')
           \<and> status d' = None
           \<and> findById st' i = Some d''
           \<and> status d'' = Some ''pending''
           \<and> (\<exists>e. statusHistory d'' = statusHistory d @ [e] \<and> entry_status e = None)"
proof -
  let ?new = "statusUpdated now (user_id u) b d"
  let ?d' = "?new\<lparr>updatedAt := now\<rparr>"
  have id: "issue_id d = i"
    by (rule findById_id [OF assms(2)])
  have r: "updateIssueStatus now st (Some u) i b = Inr (save now st d ?new, ?d')"
    by (rule updateIssueStatus_found [OF assms(1,2)]) (simp add: assms(3) inEnum_def)
  have n: "status ?d' = None"
    by (simp add: statusUpdated_facts(2) assms(3))
  have "findById (save now st d ?new) i = Some (hydrate (stamp now d ?new))"
    using assms(2) id by (simp add: findById_save statusUpdated_facts(1))
  then have f: "findById (save now st d ?new) i = Some (hydrate ?d')"
    by (simp add: stamp_def statusUpdated_changes)
  have s: "status (hydrate ?d') = Some ''pending''"
    by (simp add: hydrate_status n)
  obtain e where "statusHistory ?new = statusHistory d @ [e]" "entry_status e = sb_status b"
    using statusUpdated_facts(3) by blast
  then have h: "\<exists>e. statusHistory (hydrate ?d') = statusHistory d @ [e] \<and> entry_status e = None"
    by (simp add: assms(3))
  from r n f s h show ?thesis
    by blast
qed

text \<open>
  C9, evaluated where it fails. The issue of the first sample report (id 0) is assigned
  by a government user, who then sends a status update whose body has no \<open>status\<close>. The
  update is accepted. The issue is read back with the status \<open>'pending'\<close>, while the last
  of the three entries of its history has no status.
\<close>

theorem status_update_without_status:
  "map_sum id (issue_id \<circ> snd) firstReport = Inr 0
   \<and> map_option status (findById assignedReport 0) = Some (Some ''assigned'')
   \<and> map_option (map entry_status \<circ> statusHistory) (findById assignedReport 0)
        = Some [Some ''pending'', Some ''assigned'']
   \<and> sb_status statuslessBody = None
   \<and> \<not> isl statuslessUpdate
   \<and> afterRequests (storeOf emptyStore firstReport) statuslessRequests
        = storeOf assignedReport statuslessUpdate
   \<and> map_option status (findById (storeOf assignedReport statuslessUpdate) 0)
        = Some (Some ''pending'')
   \<and> map_option (map entry_status \<circ> statusHistory)
        (findById (storeOf assignedReport statuslessUpdate) 0)
        = Some [Some ''pending'', Some ''assigned'', None]
   \<and> map_option (entry_status \<circ> last \<circ> statusHistory)
        (findById (storeOf assignedReport statuslessUpdate) 0) = Some None"
proof -
  let ?b1 = "\<lparr>ab_department = Some ''Roads'', ab_officialId = None, ab_comment = None\<rparr>"
  have c: "ld_coordinates sampleLocation = Some [77, 13]"
    by (simp add: sampleLocation_def)
  have l: "length [77, 13 :: real] = 2" by simp
  obtain st1 d1 where 1: "createIssue 1000 emptyStore (Some citizen9) sampleBody = Inr (st1, d1)"
    by (simp add: createIssue_accepts [OF sampleBody_valid sampleBody_location c l] Let_def)
  note f = createIssue_result [OF 1]
  have fr: "firstReport = Inr (st1, d1)"
    by (simp add: firstReport_def 1)
  have s1: "storeOf emptyStore firstReport = st1"
    by (simp add: fr storeOf_def)
  have i: "issue_id d1 = 0"
    by (simp add: f(2) freshId_def emptyStore_def)
  have g: "role official3 = ''government''" "user_id official3 = 3"
    by (simp_all add: official3_def)
  have found1: "findById st1 0 = Some d1"
    unfolding f(1) using findById_insertIssue [OF f(2), of 0] i f(2)
    by (simp add: created_status [OF 1])
  define a1 where "a1 = assigned 3000 3 ?b1 d1"
  define d2 where "d2 = a1\<lparr>updatedAt := 3000\<rparr>"
  define st2 where "st2 = save 3000 st1 d1 a1"
  have as: "assignIssue 3000 st1 (Some official3) 0 ?b1 = Inr (st2, d2)"
    using assignIssue_found [OF g(1) found1, of 3000 ?b1]
    by (simp add: g(2) a1_def d2_def st2_def)
  have ar: "assignedReport = st2"
    unfolding assignedReport_def afterRequests_def s1 by (simp add: as storeOf_def)
  have a1f: "issue_id a1 = 0" "status a1 = Some ''assigned''"
    "map entry_status (statusHistory a1) = [Some ''pending'', Some ''assigned'']"
    using f(10) by (simp_all add: a1_def assigned_def i)
  have "a1 \<noteq> d1"
    unfolding a1_def by (rule assigned_changes)
  then have st: "stamp 3000 d1 a1 = d2"
    by (simp add: stamp_def d2_def)
  have found2: "findById st2 0 = Some d2"
    unfolding st2_def using findById_saved [OF found1, of a1 3000] a1f(1,2) st by simp
  have d2f: "status d2 = Some ''assigned''"
    "map entry_status (statusHistory d2) = [Some ''pending'', Some ''assigned'']"
    by (simp_all add: d2_def a1f)
  have n: "sb_status statuslessBody = None"
    by (simp add: statuslessBody_def)
  define u2 where "u2 = statusUpdated 4000 3 statuslessBody d2"
  define st3 where "st3 = save 4000 st2 d2 u2"
  have up: "updateIssueStatus 4000 st2 (Some official3) 0 statuslessBody
              = Inr (st3, u2\<lparr>updatedAt := 4000\<rparr>)"
    using updateIssueStatus_found [OF g(1) found2, of statuslessBody 4000]
    by (simp add: n inEnum_def g(2) u2_def st3_def)
  have su: "statuslessUpdate = Inr (st3, u2\<lparr>updatedAt := 4000\<rparr>)"
    by (simp add: statuslessUpdate_def ar up)
  have s3: "storeOf assignedReport statuslessUpdate = st3"
    by (simp add: su storeOf_def)
  have u2f: "issue_id u2 = issue_id d2" "status u2 = None"
    "map entry_status (statusHistory u2) = [Some ''pending'', Some ''assigned'', None]"
    using d2f(2) by (simp_all add: u2_def statusUpdated_def Let_def n)
  have "u2 \<noteq> d2"
    unfolding u2_def by (rule statusUpdated_changes)
  then have st': "stamp 4000 d2 u2 = u2\<lparr>updatedAt := 4000\<rparr>"
    by (simp add: stamp_def)
  have id2: "issue_id d2 = 0"
    by (rule findById_id [OF found2])
  have found3: "findById st3 0 = Some (hydrate (u2\<lparr>updatedAt := 4000\<rparr>))"
    unfolding st3_def using found2 id2 by (simp add: findById_save u2f(1) st')
  have h: "status (hydrate (u2\<lparr>updatedAt := 4000\<rparr>)) = Some ''pending''"
    "map entry_status (statusHistory (hydrate (u2\<lparr>updatedAt := 4000\<rparr>)))
       = [Some ''pending'', Some ''assigned'', None]"
    by (simp_all add: hydrate_status u2f)
  have la: "entry_status (last (statusHistory (hydrate (u2\<lparr>updatedAt := 4000\<rparr>)))) = None"
  proof -
    have "statusHistory (hydrate (u2\<lparr>updatedAt := 4000\<rparr>)) \<noteq> []"
      using h(2) by auto
    then have "entry_status (last (statusHistory (hydrate (u2\<lparr>updatedAt := 4000\<rparr>))))
                 = last (map entry_status (statusHistory (hydrate (u2\<lparr>updatedAt := 4000\<rparr>))))"
      by (simp add: last_map)
    with h(2) show ?thesis
      by simp
  qed
  have rs: "afterRequests st1 statuslessRequests = st3"
    by (simp add: afterRequests_def statuslessRequests_def as up storeOf_def)
  have ok: "\<not> isl statuslessUpdate"
    by (simp add: su)
  have s3': "storeOf st2 statuslessUpdate = st3"
    using s3 unfolding ar .
  show ?thesis
    unfolding s1 ar s3'
    by (simp add: fr i found2 d2f n ok rs found3 h u2f la [simplified])
qed

text \<open>
  The invariant of C9 does hold along every sequence of requests each of which carries a
  status: then no stored status is unset, and what is read back is what was stored.
\<close>

lemma saved_history:
  assumes "findById st i = Some d" and "historyConsistent d"
    and "findById st j = Some dj" and "issue_id new = issue_id dj" and "historyConsistent new"
    and "new \<noteq> dj" and "status new \<noteq> None"
  shows "\<exists>d'. findById (save now st dj new) i = Some d' \<and> historyConsistent d'"
proof (cases "j = i")
  case True
  with assms(1,3) have "dj = d" by simp
  with assms True findById_id [OF assms(3)] findById_saved [OF assms(3), of new now]
  show ?thesis
    by (simp add: stamp_def historyConsistent_def)
next
  case False
  with assms findById_id [OF assms(3)] show ?thesis
    by (simp add: findById_save_other)
qed

lemma afterRequest_history:
  assumes "findById st i = Some d" and "historyConsistent d" and "carriesStatus r"
  shows "\<exists>d'. findById (afterRequest st r) i = Some d' \<and> historyConsistent d'"
proof (cases r)
  case (Assign now requester j b)
  show ?thesis
  proof (cases "assignIssue now st requester j b")
    case (Inl e)
    with assms Assign show ?thesis by (simp add: storeOf_def)
  next
    case (Inr res)
    then have "\<exists>uid dj. findById st j = Some dj
        \<and> saveChecked ''Failed to assign issue'' now st dj (assigned now uid b dj) = Inr res"
      by (cases requester; cases "findById st j")
        (auto simp: assignIssue_def split: if_splits)
    then obtain uid dj where dj: "findById st j = Some dj"
      and s: "saveChecked ''Failed to assign issue'' now st dj (assigned now uid b dj) = Inr res"
      by blast
    have "fst res = save now st dj (assigned now uid b dj)"
      using saveChecked_result(1) [of _ now st dj _ "fst res" "snd res"] s by simp
    with Assign Inr have "afterRequest st r = save now st dj (assigned now uid b dj)"
      by (simp add: storeOf_def)
    moreover have "status (assigned now uid b dj) \<noteq> None"
      by (simp add: assigned_facts(2))
    ultimately show ?thesis
      using saved_history [OF assms(1,2) dj assigned_facts(1) historyConsistent_assigned
          assigned_changes]
      by simp
  qed
next
  case (UpdateStatus now requester j b)
  show ?thesis
  proof (cases "updateIssueStatus now st requester j b")
    case (Inl e)
    with assms UpdateStatus show ?thesis by (simp add: storeOf_def)
  next
    case (Inr res)
    then have "\<exists>uid dj. findById st j = Some dj
        \<and> saveChecked ''Failed to update issue status'' now st dj
              (statusUpdated now uid b dj) = Inr res"
      by (cases requester; cases "findById st j")
        (auto simp: updateIssueStatus_def split: if_splits)
    then obtain uid dj where dj: "findById st j = Some dj"
      and s: "saveChecked ''Failed to update issue status'' now st dj
                (statusUpdated now uid b dj) = Inr res"
      by blast
    have "fst res = save now st dj (statusUpdated now uid b dj)"
      using saveChecked_result(1) [of _ now st dj _ "fst res" "snd res"] s by simp
    with UpdateStatus Inr
    have "afterRequest st r = save now st dj (statusUpdated now uid b dj)"
      by (simp add: storeOf_def)
    moreover have "status (statusUpdated now uid b dj) \<noteq> None"
      using assms(3) UpdateStatus by (simp add: statusUpdated_facts(2))
    ultimately show ?thesis
      using saved_history [OF assms(1,2) dj statusUpdated_facts(1) historyConsistent_statusUpdated
        statusUpdated_changes]
      by simp
  qed
qed

lemma afterRequests_history:
  assumes "findById st i = Some d" and "historyConsistent d" and "list_all carriesStatus rs"
  shows "\<exists>d'. findById (afterRequests st rs) i = Some d' \<and> historyConsistent d'"
  using assms unfolding afterRequests_def
proof (induction rs arbitrary: st d)
  case Nil
  then show ?case by simp
next
  case (Cons r rs)
  from Cons.prems(3) have r: "carriesStatus r" and rs: "list_all carriesStatus rs"
    by simp_all
  from afterRequest_history [OF Cons.prems(1,2) r] obtain d1
    where "findById (afterRequest st r) i = Some d1" "historyConsistent d1"
    by blast
  from Cons.IH [OF this rs] show ?case by simp
qed

lemma history_tracks_given_status:
  assumes "createIssue now st requester b = Inr (st0, d0)" and "list_all carriesStatus rs"
  shows "\<exists>d. findById (afterRequests st0 rs) (issue_id d0) = Some d
            \<and> 1 \<le> length (statusHistory d)
            \<and> entry_status (last (statusHistory d)) = status d"
proof -
  note c = createIssue_result [OF assms(1)]
  have f: "findById st0 (issue_id d0) = Some d0"
    unfolding c(1) by (simp add: findById_insertIssue [OF c(2)] c(2) created_status [OF assms(1)])
  from c(10) obtain e where e: "statusHistory d0 = [e]" "entry_status e = Some ''pending''"
    by auto
  then have h: "historyConsistent d0"
    by (simp add: historyConsistent_def c(9))
  from afterRequests_history [OF f h assms(2)] show ?thesis
    by (simp add: historyConsistent_def)
qed

lemma history_tracks_given_status_example:
  "list_all carriesStatus sampleRequests
   \<and> (\<exists>st0 d0 d. createIssue 1000 emptyStore (Some citizen9) sampleBody = Inr (st0, d0)
         \<and> findById (afterRequests st0 sampleRequests) (issue_id d0) = Some d
         \<and> 1 \<le> length (statusHistory d)
         \<and> entry_status (last (statusHistory d)) = status d)"
proof -
  have c: "ld_coordinates sampleLocation = Some [77, 13]"
    by (simp add: sampleLocation_def)
  have l: "length [77, 13 :: real] = 2" by simp
  have a: "list_all carriesStatus sampleRequests"
    by (simp add: sampleRequests_def)
  obtain st0 d0 where 1: "createIssue 1000 emptyStore (Some citizen9) sampleBody = Inr (st0, d0)"
    by (simp add: createIssue_accepts [OF sampleBody_valid sampleBody_location c l] Let_def)
  from history_tracks_given_status [OF 1 a] 1 a show ?thesis
    by blast
qed

lemma created_issue_consistent:
  assumes "createIssue now st requester b = Inr (st', d)"
  shows "votesConsistent d"
  by (simp add: votesConsistent_def createIssue_result(7,8) [OF assms])

section \<open>States the handlers can reach\<close>

lemma wellFormed_save:
  assumes "wellFormed st" and "issue_id new = issue_id old"
    and "votesConsistent new" and "distinct (voters new)"
    and "votesConsistent old" and "distinct (voters old)"
  shows "wellFormed (save now st old new)"
proof -
  have s: "votesConsistent (stamp now old new) \<and> distinct (voters (stamp now old new))"
    using assms(3-6) by (simp add: stamp_def votesConsistent_def)
  have i: "issue_id (stamp now old new) = issue_id old"
    using assms(2) by simp
  from assms(1) s i show ?thesis
    by (auto simp: wellFormed_def save_def list_all_iff)
qed

lemma wellFormed_found:
  assumes "wellFormed st" and "findById st i = Some d"
  shows "votesConsistent d" and "distinct (voters d)"
proof -
  from findById_stored [OF assms(2)] obtain d0 where "d0 \<in> set (issues st)" "d = hydrate d0"
    by blast
  with assms(1) show "votesConsistent d" and "distinct (voters d)"
    by (auto simp: wellFormed_def list_all_iff votesConsistent_def)
qed

lemma distinct_toggleVote:
  "distinct (voters d) \<Longrightarrow> distinct (voters (toggleVote u d))"
  by (simp add: toggleVote_def)

lemma voters_assigned: "voters (assigned now uid b d) = voters d"
  by (simp add: assigned_def)

lemma voters_statusUpdated: "voters (statusUpdated now uid b d) = voters d"
  by (simp add: statusUpdated_def Let_def)

lemma voters_markAllRead: "voters (markAllRead d) = voters d"
  by (simp add: markAllRead_def)

lemma votesConsistent_assigned: "votesConsistent (assigned now uid b d) = votesConsistent d"
  by (simp add: assigned_def votesConsistent_def)

lemma votesConsistent_statusUpdated:
  "votesConsistent (statusUpdated now uid b d) = votesConsistent d"
  by (simp add: statusUpdated_def votesConsistent_def Let_def)

lemma markAllRead_consistent:
  "votesConsistent (markAllRead d) = votesConsistent d"
  by (simp add: markAllRead_def votesConsistent_def)

lemma wellFormed_handle:
  assumes "wellFormed st"
  shows "wellFormed (handle st r)"
proof (cases r)
  case (Create now requester b)
  show ?thesis
  proof (cases "createIssue now st requester b")
    case (Inl e)
    with assms Create show ?thesis by (simp add: storeOf_def)
  next
    case (Inr res)
    then have c: "createIssue now st requester b = Inr (fst res, snd res)" by simp
    note f = createIssue_result(1,2) [OF c] created_issue_consistent [OF c]
    have "wellFormed (insertIssue st (snd res))"
      using assms f(3) createIssue_result(8) [OF c]
      by (simp add: wellFormed_def insertIssue_def)
    with Create Inr f(1) show ?thesis by (simp add: storeOf_def)
  qed
next
  case (Read now requester i)
  show ?thesis
  proof (cases "findById st i")
    case None
    with assms Read show ?thesis by (simp add: getIssueById_def storeOf_def)
  next
    case (Some d)
    note w = wellFormed_found [OF assms Some]
    have "wellFormed (save now st d (markAllRead d))"
      by (rule wellFormed_save [OF assms])
        (simp_all add: markAllRead_frame markAllRead_consistent voters_markAllRead w)
    with assms Read Some show ?thesis
      by (simp add: getIssueById_def storeOf_def)
  qed
next
  case (Vote now requester i)
  show ?thesis
  proof (cases "voteOnIssue now st requester i")
    case (Inl e)
    with assms Vote show ?thesis by (simp add: afterVote_def storeOf_def)
  next
    case (Inr res)
    then obtain d u where d: "findById st i = Some d" and u: "requester = Some u"
      by (auto simp: voteOnIssue_def split: option.splits)
    note w = wellFormed_found [OF assms d]
    have "wellFormed (save now st d (toggleVote (user_id u) d))"
      by (rule wellFormed_save [OF assms])
        (simp_all add: votesConsistent_toggleVote distinct_toggleVote w)
    with Vote d u show ?thesis
      by (simp add: afterVote_def storeOf_def voteOnIssue_found)
  qed
next
  case (Workflow w)
  show ?thesis
  proof (cases w)
    case (Assign now requester j b)
    show ?thesis
    proof (cases "assignIssue now st requester j b")
      case (Inl e)
      with assms Workflow Assign show ?thesis by (simp add: storeOf_def)
    next
      case (Inr res)
      then have "\<exists>uid dj. findById st j = Some dj
          \<and> saveChecked ''Failed to assign issue'' now st dj (assigned now uid b dj) = Inr res"
        by (cases requester; cases "findById st j")
          (auto simp: assignIssue_def split: if_splits)
      then obtain uid dj where dj: "findById st j = Some dj"
        and s: "saveChecked ''Failed to assign issue'' now st dj (assigned now uid b dj) = Inr res"
        by blast
      note wf = wellFormed_found [OF assms dj]
      have "fst res = save now st dj (assigned now uid b dj)"
        using saveChecked_result(1) [of _ now st dj _ "fst res" "snd res"] s by simp
      moreover have "wellFormed (save now st dj (assigned now uid b dj))"
        by (rule wellFormed_save [OF assms])
          (simp_all add: assigned_facts(1) votesConsistent_assigned voters_assigned wf)
      ultimately show ?thesis
        using Workflow Assign Inr by (simp add: storeOf_def)
    qed
  next
    case (UpdateStatus now requester j b)
    show ?thesis
    proof (cases "updateIssueStatus now st requester j b")
      case (Inl e)
      with assms Workflow UpdateStatus show ?thesis by (simp add: storeOf_def)
    next
      case (Inr res)
      then have "\<exists>uid dj. findById st j = Some dj
          \<and> saveChecked ''Failed to update issue status'' now st dj
                (statusUpdated now uid b dj) = Inr res"
        by (cases requester; cases "findById st j")
          (auto simp: updateIssueStatus_def split: if_splits)
      then obtain uid dj where dj: "findById st j = Some dj"
        and s: "saveChecked ''Failed to update issue status'' now st dj
                  (statusUpdated now uid b dj) = Inr res"
        by blast
      note wf = wellFormed_found [OF assms dj]
      have "fst res = save now st dj (statusUpdated now uid b dj)"
        using saveChecked_result(1) [of _ now st dj _ "fst res" "snd res"] s by simp
      moreover have "wellFormed (save now st dj (statusUpdated now uid b dj))"
        by (rule wellFormed_save [OF assms])
          (simp_all add: statusUpdated_facts(1) votesConsistent_statusUpdated
            voters_statusUpdated wf)
      ultimately show ?thesis
        using Workflow UpdateStatus Inr by (simp add: storeOf_def)
    qed
  qed
qed

lemma wellFormed_foldl:
  "wellFormed st \<Longrightarrow> wellFormed (foldl handle st rs)"
  by (induction rs arbitrary: st) (simp_all add: wellFormed_handle)

text \<open>
  Every state the handlers can produce from the empty store is well formed: each stored
  issue has \<open>votes\<close> equal to the number of its voters and no voter twice in the array (so
  \<open>votes\<close> is also the length of \<open>voters\<close>).
\<close>

lemma reachable_wellFormed:
  assumes "reachable st"
  shows "wellFormed st"
proof -
  have "wellFormed emptyStore"
    by (simp add: wellFormed_def emptyStore_def)
  with assms show ?thesis
    by (auto simp: reachable_def wellFormed_foldl)
qed

lemma reachable_issue_consistent:
  assumes "reachable st" and "findById st i = Some d"
  shows "votesConsistent d" and "distinct (voters d)"
    and "votes d = int (length (voters d))"
proof -
  note w = wellFormed_found [OF reachable_wellFormed [OF assms(1)] assms(2)]
  show "votesConsistent d" and "distinct (voters d)"
    by (rule w)+
  from w show "votes d = int (length (voters d))"
    by (simp add: votesConsistent_def distinct_card)
qed

text \<open>
  C2. In every state the handlers can produce, for every stored issue and every user: two
  vote requests in succession by that user on that issue both succeed, and afterwards the
  issue has the \<open>votes\<close> count and the set of \<open>voters\<close> it had before the first.
\<close>

theorem vote_twice_round_trip:
  assumes "reachable st" and "findById st i = Some d"
  shows "\<exists>st1 r1 st2 r2 d2.
           voteOnIssue t1 st (Some u) i = Inr (st1, r1)
         \<and> voteOnIssue t2 st1 (Some u) i = Inr (st2, r2)
         \<and> findById st2 i = Some d2
         \<and> votes d2 = votes d
         \<and> set (voters d2) = set (voters d)"
  by (rule vote_twice_consistent [OF assms(2) reachable_issue_consistent(1) [OF assms]])

theorem vote_twice_round_trip_witness:
  "reachable (storeOf emptyStore firstReport)
   \<and> (\<exists>d. findById (storeOf emptyStore firstReport) 0 = Some d \<and> votes d = 0 \<and> voters d = []
        \<and> (\<exists>st1 r1 st2 r2 d2.
               voteOnIssue 2000 (storeOf emptyStore firstReport) (Some citizen9) 0 = Inr (st1, r1)
             \<and> voteOnIssue 3000 st1 (Some citizen9) 0 = Inr (st2, r2)
             \<and> findById st2 0 = Some d2
             \<and> votes d2 = 0
             \<and> set (voters d2) = {}))"
proof -
  let ?st = "storeOf emptyStore firstReport"
  have c: "ld_coordinates sampleLocation = Some [77, 13]"
    by (simp add: sampleLocation_def)
  have l: "length [77, 13 :: real] = 2" by simp
  obtain st1 d1 where 1: "createIssue 1000 emptyStore (Some citizen9) sampleBody = Inr (st1, d1)"
    by (simp add: createIssue_accepts [OF sampleBody_valid sampleBody_location c l] Let_def)
  note f = createIssue_result [OF 1]
  have s: "?st = st1"
    by (simp add: firstReport_def 1 storeOf_def)
  have "?st = foldl handle emptyStore [Create 1000 (Some citizen9) sampleBody]"
    by (simp add: firstReport_def)
  then have r: "reachable ?st"
    unfolding reachable_def by (rule exI)
  have i: "issue_id d1 = 0"
    by (simp add: f(2) freshId_def emptyStore_def)
  have d: "findById ?st 0 = Some d1"
    unfolding s f(1) using findById_insertIssue [OF f(2), of 0] i f(2)
    by (simp add: created_status [OF 1])
  from vote_twice_round_trip [OF r d, of 2000 citizen9 3000] r d f(7,8) show ?thesis
    by auto
qed

end
